theory Spec2Isabelle
  imports Complex_Main "HOL-Library.Sublist"
begin

section \<open>Arrays and matrices\<close>

text \<open>
  The adapter \<^verbatim>\<open>nitransforms/io/afni.py\<close> works on numpy arrays of double
  precision numbers. A two-dimensional array is a list of rows; its entries are real
  numbers, that is, floating-point rounding, overflow and the non-finite values are
  idealised away wherever arithmetic is done on the entries.
\<close>

type_synonym mat = "real list list"

text \<open>Exceptions of the adapter and of the numpy calls it makes, as values.\<close>

datatype error =
  TransformFileError string | ValueError | IndexError | UFuncTypeError | LinAlgError

text \<open>Shape test: an array of shape \<open>(r, c)\<close>.\<close>

definition has_shape :: "nat \<Rightarrow> nat \<Rightarrow> 'a list list \<Rightarrow> bool" where
  "has_shape r c M = (length M = r \<and> list_all (\<lambda>row. length row = c) M)"

text \<open>\<^verbatim>\<open>np.diag(v)\<close> and \<^verbatim>\<open>np.eye(n)\<close>.\<close>

definition diag :: "real list \<Rightarrow> mat" where
  "diag v = map (\<lambda>i. map (\<lambda>j. if i = j then v ! i else 0) [0..<length v]) [0..<length v]"

definition eye :: "nat \<Rightarrow> mat" where
  "eye n = diag (replicate n 1)"

text \<open>The inner product of two vectors and the matrix product \<^verbatim>\<open>A @ B\<close>.\<close>

definition dot :: "real list \<Rightarrow> real list \<Rightarrow> real" where
  "dot u v = sum_list (map2 (*) u v)"

definition column :: "'a list list \<Rightarrow> nat \<Rightarrow> 'a list" where
  "column M j = map (\<lambda>row. row ! j) M"

definition ncols :: "'a list list \<Rightarrow> nat" where
  "ncols M = (case M of [] \<Rightarrow> 0 | row # _ \<Rightarrow> length row)"

definition matmul :: "mat \<Rightarrow> mat \<Rightarrow> mat" where
  "matmul A B = map (\<lambda>row. map (\<lambda>j. dot row (column B j)) [0..<ncols B]) A"

text \<open>
  On a two-dimensional array both \<^verbatim>\<open>np.swapaxes(M, 0, 1)\<close> and \<^verbatim>\<open>M.T\<close>
  are the transpose.
\<close>

definition swapaxes01 :: "'a list list \<Rightarrow> 'a list list" where
  "swapaxes01 M = map (column M) [0..<ncols M]"

definition T :: "'a list list \<Rightarrow> 'a list list" where
  "T M = swapaxes01 M"

section \<open>Linear transforms in AFNI's convention\<close>

text \<open>\<^verbatim>\<open>LPS = np.diag([-1, -1, 1, 1])\<close>\<close>

definition LPS :: mat where
  "LPS = diag [-1, -1, 1, 1]"

text \<open>
  An \<^verbatim>\<open>AFNILinearTransform\<close> is a structured array with the one field
  \<^verbatim>\<open>parameters\<close>, a \<open>4 \<times> 4\<close> block of doubles (declared by the base class
  \<^verbatim>\<open>LinearParameters\<close>).
\<close>

record 'a AFNILinearTransform =
  parameters :: "'a list list"

text \<open>
  \<^verbatim>\<open>AFNILinearTransform.from_ras(ras, moving=None, reference=None)\<close>.
  The product with \<^verbatim>\<open>LPS\<close> and the assignment to the \<open>4 \<times> 4\<close> field need a
  \<open>4 \<times> 4\<close> array; numpy raises \<^verbatim>\<open>ValueError\<close> on another two-dimensional shape.
  The arguments \<^verbatim>\<open>moving\<close> and \<^verbatim>\<open>reference\<close> are accepted and not read.
\<close>

definition from_ras :: "mat \<Rightarrow> 'm option \<Rightarrow> 'r option \<Rightarrow> error + real AFNILinearTransform" where
  "from_ras ras moving reference =
     (if has_shape 4 4 ras
      then (let parameters = swapaxes01 (matmul (matmul LPS ras) LPS)
            in Inr \<lparr>parameters = T parameters\<rparr>)
      else Inl ValueError)"

text \<open>\<^verbatim>\<open>AFNILinearTransform.to_ras(self, moving=None, reference=None)\<close>\<close>

definition to_ras :: "real AFNILinearTransform \<Rightarrow> 'm option \<Rightarrow> 'r option \<Rightarrow> mat" where
  "to_ras self moving reference = matmul (matmul LPS (swapaxes01 (T (parameters self)))) LPS"

text \<open>
  An \<^verbatim>\<open>AFNILinearTransformArray\<close> holds the list \<^verbatim>\<open>xforms\<close> of its
  transforms, in order.
\<close>

record 'a AFNILinearTransformArray =
  xforms :: "'a AFNILinearTransform list"

text \<open>
  A list comprehension whose body may raise: the elements are evaluated from left to
  right and the first exception ends the evaluation.
\<close>

fun collect :: "('e + 'a) list \<Rightarrow> 'e + 'a list" where
  "collect [] = Inr []"
| "collect (Inl e # rs) = Inl e"
| "collect (Inr x # rs) = (case collect rs of Inl e \<Rightarrow> Inl e | Inr xs \<Rightarrow> Inr (x # xs))"

text \<open>
  \<^verbatim>\<open>np.stack(arrays)\<close> puts arrays of one shape along a new first axis and raises
  \<^verbatim>\<open>ValueError\<close> when it is given no array at all. (Every \<^verbatim>\<open>parameters\<close>
  block has the shape \<open>(4, 4)\<close> of its field, so the shapes agree here.)
\<close>

definition stack :: "'a list \<Rightarrow> error + 'a list" where
  "stack arrays = (if arrays = [] then Inl ValueError else Inr arrays)"

text \<open>
  \<^verbatim>\<open>AFNILinearTransformArray.from_ras(ras, moving=None, reference=None)\<close>, on a
  three-dimensional array \<^verbatim>\<open>ras\<close>, a list of \<^verbatim>\<open>ras.shape[0]\<close> matrices.
\<close>

definition array_from_ras ::
  "mat list \<Rightarrow> 'm option \<Rightarrow> 'r option \<Rightarrow> error + real AFNILinearTransformArray" where
  "array_from_ras ras moving reference =
     (case collect (map (\<lambda>i. from_ras (ras ! i) moving reference) [0..<length ras]) of
        Inl e \<Rightarrow> Inl e
      | Inr xs \<Rightarrow> Inr \<lparr>xforms = xs\<rparr>)"

text \<open>\<^verbatim>\<open>AFNILinearTransformArray.to_ras(self, moving=None, reference=None)\<close>\<close>

definition array_to_ras ::
  "real AFNILinearTransformArray \<Rightarrow> 'm option \<Rightarrow> 'r option \<Rightarrow> error + mat list" where
  "array_to_ras self moving reference =
     stack (map (\<lambda>xfm. to_ras xfm moving reference) (xforms self))"

text \<open>A valid internal matrix: \<open>4 \<times> 4\<close> with the bottom row \<open>[0, 0, 0, 1]\<close>.\<close>

definition valid_ras :: "mat \<Rightarrow> bool" where
  "valid_ras M = (has_shape 4 4 M \<and> M ! 3 = [0, 0, 0, 1])"

text \<open>Two arrays of one shape whose entries differ by at most \<open>tol\<close>.\<close>

definition within_tol :: "real \<Rightarrow> mat \<Rightarrow> mat \<Rightarrow> bool" where
  "within_tol tol A B =
     (length A = length B \<and>
      list_all2 (\<lambda>r s. length r = length s \<and> list_all2 (\<lambda>x y. \<bar>x - y\<bar> \<le> tol) r s) A B)"

section \<open>Displacements fields\<close>

text \<open>
  The kind of the samples of an array, as far as the adapter tells them apart:
  \<open>Floating\<close> for the floating types, \<open>Integral\<close> for the integer and boolean types (what an
  image without scaling stores as \<^verbatim>\<open>int16\<close>, say, is read back as such).
\<close>

datatype dtype = Floating | Integral

text \<open>
  An array of any number of axes: its shape, its entries in row-major order (the last
  axis varying fastest), the kind of its samples and its \<^verbatim>\<open>writeable\<close> flag. The
  entry at the index \<open>(i\<^sub>1, \<dots>, i\<^sub>n)\<close> of an array of shape
  \<open>(s\<^sub>1, \<dots>, s\<^sub>n)\<close> stands at the position
  \<open>(\<dots>(i\<^sub>1 * s\<^sub>2 + i\<^sub>2) * \<dots>) * s\<^sub>n + i\<^sub>n\<close>.
\<close>

record ndarray =
  shape :: "nat list"
  data :: "real list"
  dtype :: dtype
  writeable :: bool

definition wf_ndarray :: "ndarray \<Rightarrow> bool" where
  "wf_ndarray a = (length (data a) = prod_list (shape a))"

text \<open>
  The image object is an external collaborator: a header that records the shape of the
  data, the samples, the affine, and the name of the file it was read from
  (\<^verbatim>\<open>imgobj.file_map["image"].filename\<close>, which is \<^verbatim>\<open>None\<close> for an image
  that was built in memory). The samples \<^verbatim>\<open>imgobj.dataobj\<close> are either an array
  proxy over the file (\<open>is_proxy\<close>), which hands out a new array each time it is
  converted, or the array that the image was built from, which the caller still holds.
\<close>

record header =
  data_shape :: "nat list"

record image =
  header :: header
  dataobj :: ndarray
  is_proxy :: bool
  affine :: mat
  filename :: "string option"

text \<open>An image keeps the shape in its header equal to the shape of its data.\<close>

definition wf_image :: "image \<Rightarrow> bool" where
  "wf_image img = (wf_ndarray (dataobj img) \<and> data_shape (header img) = shape (dataobj img))"

text \<open>\<^verbatim>\<open>"%s" % x\<close> for a file name or \<^verbatim>\<open>None\<close>.\<close>

definition str_filename :: "string option \<Rightarrow> string" where
  "str_filename f = (case f of None \<Rightarrow> ''None'' | Some name \<Rightarrow> name)"

text \<open>
  \<^verbatim>\<open>np.asanyarray(imgobj.dataobj)\<close>: the array itself when the image holds one, a
  new array, which can be written, when it holds a proxy.
\<close>

definition asanyarray :: "image \<Rightarrow> ndarray" where
  "asanyarray imgobj =
     (if is_proxy imgobj then (dataobj imgobj)\<lparr>writeable := True\<rparr> else dataobj imgobj)"

text \<open>
  \<^verbatim>\<open>np.squeeze(a)\<close> removes every axis of length one; the result is a view of the same
  entries.
\<close>

definition squeeze :: "ndarray \<Rightarrow> ndarray" where
  "squeeze a = a\<lparr>shape := filter (\<lambda>n. n \<noteq> 1) (shape a)\<rparr>"

text \<open>
  \<^verbatim>\<open>field[..., (0, 1)] *= -1.0\<close>, in the three steps Python takes. Reading
  \<^verbatim>\<open>field[..., (0, 1)]\<close> copies the entries whose index on the last axis is 0 or 1,
  and raises \<^verbatim>\<open>IndexError\<close> on an array with no axis or whose last axis is shorter than
  2. Multiplying the copy in place by the float \<open>-1.0\<close> raises \<^verbatim>\<open>UFuncTypeError\<close> when
  the samples are integers (the float product cannot be cast back). Writing the copy
  back raises \<^verbatim>\<open>ValueError\<close> when the array is read-only. Otherwise the entries whose
  index on the last axis is 0 or 1 have changed sign; the index on the last axis of the
  entry at position \<open>k\<close> is \<open>k\<close> modulo the length of the last axis.
\<close>

definition flip_first_two :: "ndarray \<Rightarrow> error + ndarray" where
  "flip_first_two field =
     (if shape field = [] \<or> last (shape field) < 2 then Inl IndexError
      else if dtype field = Integral then Inl UFuncTypeError
      else if \<not> writeable field then Inl ValueError
      else Inr (field\<lparr>data :=
             map (\<lambda>k. if k mod last (shape field) \<in> set [0, 1]
                       then data field ! k * (- 1) else data field ! k)
               [0..<length (data field)]\<rparr>))"

text \<open>
  The image class called on \<^verbatim>\<open>(field, affine, hdr)\<close>: a new image that holds the
  array, not read from a file, whose header is \<^verbatim>\<open>hdr\<close> brought to the shape of the
  data.
\<close>

definition new_image :: "ndarray \<Rightarrow> mat \<Rightarrow> header \<Rightarrow> image" where
  "new_image field aff hdr =
     \<lparr>header = hdr\<lparr>data_shape := shape field\<rparr>, dataobj = field, is_proxy = False,
      affine = aff, filename = None\<rparr>"

text \<open>
  \<^verbatim>\<open>AFNIDisplacementsField.from_image(imgobj)\<close>. The result is the image returned
  together with the image of the caller as the call leaves it: when the caller's image
  holds an array, \<^verbatim>\<open>field\<close> is a view of that array, and the signs are flipped in
  the caller's data too.
\<close>

definition from_image :: "image \<Rightarrow> error + image \<times> image" where
  "from_image imgobj =
     (let hdr = header imgobj;
          shp = data_shape hdr
      in if length shp \<noteq> 5 \<or> shp ! (length shp - 2) \<noteq> 1 \<or> \<not> shp ! (length shp - 1) \<in> set [2, 3]
         then Inl (TransformFileError
                (''Displacements field '' @ [CHR 0x22] @ str_filename (filename imgobj) @
                 [CHR 0x22] @ '' does not come from AFNI.''))
         else (case flip_first_two (squeeze (asanyarray imgobj)) of
                 Inl e \<Rightarrow> Inl e
               | Inr field \<Rightarrow>
                   Inr (new_image field (affine imgobj) hdr,
                        if is_proxy imgobj then imgobj
                        else imgobj\<lparr>dataobj := (dataobj imgobj)\<lparr>data := data field\<rparr>\<rparr>)))"

text \<open>
  The shape the adapter asks for, in the words of the specification: five axes, the
  second-to-last of length 1 and the last of length 2 or 3.
\<close>

definition conforming :: "nat list \<Rightarrow> bool" where
  "conforming shp = (length shp = 5 \<and> shp ! 3 = 1 \<and> (shp ! 4 = 2 \<or> shp ! 4 = 3))"

text \<open>
  The data the specification describes for a conforming field of shape
  \<open>(X, Y, Z, 1, C)\<close>: only the singleton fourth axis is removed, so that the shape is
  \<open>(X, Y, Z, C)\<close>, and the first two components of each vector change sign.
\<close>

definition spec_field :: "ndarray \<Rightarrow> ndarray" where
  "spec_field a =
     a\<lparr>shape := take 3 (shape a) @ [last (shape a)],
       data := map (\<lambda>k. if k mod last (shape a) < 2 then - (data a ! k) else data a ! k)
                 [0..<length (data a)]\<rparr>"

text \<open>The entries of a field whose last axis has length \<open>C\<close>, the first two components
  of each vector with their sign changed.\<close>

definition flipped :: "nat \<Rightarrow> real list \<Rightarrow> real list" where
  "flipped C xs = map (\<lambda>k. if k mod C < 2 then - (xs ! k) else xs ! k) [0..<length xs]"

section \<open>Double precision numbers and their text\<close>

text \<open>
  The values of a double: the finite ones are idealised as real numbers (no rounding to
  53 bits, no overflow, no negative zero), beside the two infinities and \<^verbatim>\<open>nan\<close>.
\<close>

datatype f8 = Finite real | PosInf | NegInf | NaN

instantiation f8 :: "{zero,one}"
begin

definition zero_f8 :: f8 where
  "zero_f8 = Finite 0"

definition one_f8 :: f8 where
  "one_f8 = Finite 1"

instance ..

end

definition is_digit :: "char \<Rightarrow> bool" where
  "is_digit c = (48 \<le> (of_char c :: nat) \<and> (of_char c :: nat) \<le> 57)"

definition digit_val :: "char \<Rightarrow> nat" where
  "digit_val c = of_char c - 48"

definition digit_char :: "nat \<Rightarrow> char" where
  "digit_char d = ''0123456789'' ! d"

text \<open>The value of a run of decimal digits, and the decimal digits of a number.\<close>

definition nat_of_digits :: "nat list \<Rightarrow> nat" where
  "nat_of_digits ds = foldl (\<lambda>n d. 10 * n + d) 0 ds"

fun digits_of :: "nat \<Rightarrow> nat list" where
  "digits_of n = (if n < 10 then [n] else digits_of (n div 10) @ [n mod 10])"

declare digits_of.simps [simp del]

subsection \<open>Reading a number: Python's \<^verbatim>\<open>float(s)\<close>\<close>

text \<open>
  A \<^verbatim>\<open>digitpart\<close> of Python's grammar for \<^verbatim>\<open>float\<close>: decimal digits, with single
  underscores allowed between two digits. The result is the list of the digits.
\<close>

fun digitpart_from :: "bool \<Rightarrow> string \<Rightarrow> nat list option" where
  "digitpart_from after_digit [] = (if after_digit then Some [] else None)"
| "digitpart_from after_digit (c # cs) =
     (if is_digit c then map_option ((#) (digit_val c)) (digitpart_from True cs)
      else if c = CHR ''_'' \<and> after_digit then digitpart_from False cs
      else None)"

definition digitpart :: "string \<Rightarrow> nat list option" where
  "digitpart s = digitpart_from False s"

text \<open>An optional sign: the sign (true for minus) and the rest.\<close>

definition split_sign :: "string \<Rightarrow> bool \<times> string" where
  "split_sign s =
     (case s of
        c # cs \<Rightarrow> if c = CHR ''-'' then (True, cs) else if c = CHR ''+'' then (False, cs)
                  else (False, s)
      | [] \<Rightarrow> (False, s))"

definition lower :: "string \<Rightarrow> string" where
  "lower s = map (\<lambda>c. if 65 \<le> (of_char c :: nat) \<and> (of_char c :: nat) \<le> 90
                       then char_of ((of_char c :: nat) + 32) else c) s"

text \<open>\<open>10\<close> to an integer power.\<close>

definition pow10 :: "int \<Rightarrow> real" where
  "pow10 e = (if 0 \<le> e then 10 ^ nat e else 1 / 10 ^ nat (- e))"

text \<open>
  \<^verbatim>\<open>number ::= [digitpart] "." digitpart | digitpart ["."]\<close>: the value of the
  mantissa, if the text is one.
\<close>

definition mantissa :: "string \<Rightarrow> real option" where
  "mantissa s =
     (let ip = takeWhile (\<lambda>c. c \<noteq> CHR ''.'') s;
          rest = dropWhile (\<lambda>c. c \<noteq> CHR ''.'') s
      in if rest = [] then map_option (\<lambda>ds. real (nat_of_digits ds)) (digitpart ip)
         else (let fp = tl rest
               in if ip = [] \<and> fp = [] then None
                  else (case (if ip = [] then Some [] else digitpart ip,
                              if fp = [] then Some [] else digitpart fp) of
                          (Some ids, Some fds) \<Rightarrow>
                            Some (real (nat_of_digits ids) +
                                  real (nat_of_digits fds) / 10 ^ length fds)
                        | _ \<Rightarrow> None)))"

text \<open>\<^verbatim>\<open>exponent ::= ("e" | "E") [sign] digitpart\<close>, without the letter.\<close>

definition exponent :: "string \<Rightarrow> int option" where
  "exponent s =
     (case split_sign s of
        (neg, ds) \<Rightarrow>
          map_option (\<lambda>ds. if neg then - int (nat_of_digits ds) else int (nat_of_digits ds))
            (digitpart ds))"

definition is_e :: "char \<Rightarrow> bool" where
  "is_e c = (c = CHR ''e'' \<or> c = CHR ''E'')"

text \<open>
  \<^verbatim>\<open>float(s)\<close> on a string without white space around it; \<open>None\<close> is Python's
  \<^verbatim>\<open>ValueError\<close>.
\<close>

definition float_str :: "string \<Rightarrow> f8 option" where
  "float_str s =
     (case split_sign s of
        (neg, a) \<Rightarrow>
          if lower a = ''inf'' \<or> lower a = ''infinity'' then Some (if neg then NegInf else PosInf)
          else if lower a = ''nan'' then Some NaN
          else (let m = takeWhile (\<lambda>c. \<not> is_e c) a;
                    rest = dropWhile (\<lambda>c. \<not> is_e c) a
                in case (mantissa m, if rest = [] then Some 0 else exponent (tl rest)) of
                     (Some v, Some e) \<Rightarrow> Some (Finite ((if neg then - 1 else 1) * (v * pow10 e)))
                   | _ \<Rightarrow> None))"

text \<open>
  The conversion that genfromtxt applies to a field of a column of doubles:
  \<^verbatim>\<open>float\<close>, and \<^verbatim>\<open>nan\<close> where \<^verbatim>\<open>float\<close> raises.
\<close>

definition py_float :: "string \<Rightarrow> f8" where
  "py_float s = (case float_str s of Some x \<Rightarrow> x | None \<Rightarrow> NaN)"

subsection \<open>Writing a number: Python's \<^verbatim>\<open>"%g" % x\<close>\<close>

text \<open>The decimal exponent of a positive number \<open>a\<close>: the \<open>e\<close> with \<open>10^e \<le> a < 10^(e+1)\<close>.\<close>

definition decimal_exponent :: "real \<Rightarrow> int" where
  "decimal_exponent a =
     (if 1 \<le> a then int (length (digits_of (nat \<lfloor>a\<rfloor>))) - 1
      else - int (length (digits_of (nat \<lceil>1 / a\<rceil> - 1))))"

text \<open>Rounding to the nearest integer, a tie to the even one.\<close>

definition round_half_even :: "real \<Rightarrow> int" where
  "round_half_even q =
     (let f = \<lfloor>q\<rfloor>; r = q - of_int f
      in if r < 1 / 2 then f else if 1 / 2 < r then f + 1 else if even f then f else f + 1)"

text \<open>
  The six significant digits of a positive number and its decimal exponent after
  rounding (rounding \<open>999999.5\<close> gives the digits \<open>100000\<close> and the exponent 6).
\<close>

definition six_digits :: "real \<Rightarrow> nat list \<times> int" where
  "six_digits a =
     (let e = decimal_exponent a;
          m = nat (round_half_even (a * pow10 (5 - e)))
      in if m = 1000000 then (digits_of 100000, e + 1) else (digits_of m, e))"

definition strip_zeros :: "nat list \<Rightarrow> nat list" where
  "strip_zeros ds = rev (dropWhile (\<lambda>d. d = 0) (rev ds))"

definition with_fraction :: "nat list \<Rightarrow> nat list \<Rightarrow> string" where
  "with_fraction ip fp =
     map digit_char ip @ (if strip_zeros fp = [] then [] else CHR ''.'' # map digit_char (strip_zeros fp))"

text \<open>
  \<^verbatim>\<open>"%g" % x\<close>: six significant digits; fixed notation when the exponent \<open>e\<close> after
  rounding has \<open>-4 \<le> e < 6\<close> and scientific notation otherwise, with an exponent of at
  least two digits; trailing zeros of the fraction are removed, and the point with them
  when nothing is left.
\<close>

definition fmt_g :: "f8 \<Rightarrow> string" where
  "fmt_g x =
     (case x of
        NaN \<Rightarrow> ''nan''
      | PosInf \<Rightarrow> ''inf''
      | NegInf \<Rightarrow> ''-inf''
      | Finite v \<Rightarrow>
          if v = 0 then ''0''
          else (case six_digits \<bar>v\<bar> of
                  (ds, e) \<Rightarrow>
                    (if v < 0 then ''-'' else '''') @
                    (if - 4 \<le> e \<and> e < 6
                     then (if 0 \<le> e then with_fraction (take (nat e + 1) ds) (drop (nat e + 1) ds)
                           else with_fraction [0] (replicate (nat (- e - 1)) 0 @ ds))
                     else with_fraction (take 1 ds) (drop 1 ds) @ ''e'' @
                          (if e < 0 then ''-'' else ''+'') @
                          (if \<bar>e\<bar> < 10 then ''0'' else '''') @
                          map digit_char (digits_of (nat \<bar>e\<bar>)))))"

section \<open>Text: the strings of Python\<close>

text \<open>
  A Python string is modelled by a HOL string whose characters are the code points
  below 256. White space (\<^verbatim>\<open>str.isspace\<close>) and the line boundaries of
  \<^verbatim>\<open>str.splitlines\<close> in that range:
\<close>

definition is_space :: "char \<Rightarrow> bool" where
  "is_space c = (c \<in> set [CHR 0x09, CHR 0x0A, CHR 0x0B, CHR 0x0C, CHR 0x0D, CHR 0x1C,
                          CHR 0x1D, CHR 0x1E, CHR 0x1F, CHR 0x20, CHR 0x85, CHR 0xA0])"

definition is_linebreak :: "char \<Rightarrow> bool" where
  "is_linebreak c = (c \<in> set [CHR 0x0A, CHR 0x0B, CHR 0x0C, CHR 0x0D, CHR 0x1C,
                              CHR 0x1D, CHR 0x1E, CHR 0x85])"

text \<open>
  \<^verbatim>\<open>s.splitlines()\<close>: the lines of \<open>s\<close> without their line boundaries; a carriage
  return followed by a line feed is one boundary, and a boundary at the very end opens
  no further line. The first argument collects the current line, backwards; the second
  tells that the last character was a carriage return.
\<close>

fun splitlines_from :: "string \<Rightarrow> bool \<Rightarrow> string \<Rightarrow> string list" where
  "splitlines_from cur after_cr [] = (if cur = [] then [] else [rev cur])"
| "splitlines_from cur after_cr (c # cs) =
     (if after_cr \<and> c = CHR 0x0A then splitlines_from cur False cs
      else if is_linebreak c then rev cur # splitlines_from [] (c = CHR 0x0D) cs
      else splitlines_from (c # cur) False cs)"

definition splitlines :: "string \<Rightarrow> string list" where
  "splitlines s = splitlines_from [] False s"

text \<open>\<^verbatim>\<open>s.strip(chars)\<close> and \<^verbatim>\<open>s.strip()\<close>\<close>

definition strip_chars :: "string \<Rightarrow> string \<Rightarrow> string" where
  "strip_chars chars s =
     rev (dropWhile (\<lambda>c. c \<in> set chars) (rev (dropWhile (\<lambda>c. c \<in> set chars) s)))"

definition strip :: "string \<Rightarrow> string" where
  "strip s = rev (dropWhile is_space (rev (dropWhile is_space s)))"

text \<open>\<^verbatim>\<open>s.startswith(p)\<close> is \<^term>\<open>prefix p s\<close>, and \<^verbatim>\<open>p in s\<close> is \<^term>\<open>sublist p s\<close>.\<close>

definition startswith :: "string \<Rightarrow> string \<Rightarrow> bool" where
  "startswith s p = prefix p s"

text \<open>
  \<^verbatim>\<open>s.split()\<close>: the maximal runs of characters that are not white space. The first
  argument collects the current run, backwards.
\<close>

fun split_from :: "string \<Rightarrow> string \<Rightarrow> string list" where
  "split_from cur [] = (if cur = [] then [] else [rev cur])"
| "split_from cur (c # cs) =
     (if is_space c then (if cur = [] then split_from [] cs else rev cur # split_from [] cs)
      else split_from (c # cur) cs)"

definition split_ws :: "string \<Rightarrow> string list" where
  "split_ws s = split_from [] s"

text \<open>\<^verbatim>\<open>sep.join(strings)\<close>\<close>

fun join :: "string \<Rightarrow> string list \<Rightarrow> string" where
  "join sep [] = []"
| "join sep [s] = s"
| "join sep (s # t # ss) = s @ sep @ join sep (t # ss)"

text \<open>
  \<^verbatim>\<open>line.encode()\<close> gives the bytes of the UTF-8 encoding, which
  \<^verbatim>\<open>np.genfromtxt\<close> reads back as Latin-1: a code point from 128 on comes back as
  two characters.
\<close>

definition encode :: "string \<Rightarrow> string" where
  "encode s = concat (map (\<lambda>c. if (of_char c :: nat) < 128 then [c]
                               else [char_of (192 + (of_char c :: nat) div 64),
                                     char_of (128 + (of_char c :: nat) mod 64)]) s)"

section \<open>Text: reading a line of numbers\<close>

text \<open>
  \<^verbatim>\<open>np.genfromtxt([line], dtype="f8")\<close> on one line of bytes: what follows the first
  \<^verbatim>\<open>#\<close> is a comment and is dropped, the rest is stripped of blanks and line ends and
  split at white space, and each field is converted to a double. The conversion is the
  parameter \<open>float_of\<close>: it is Python's \<^verbatim>\<open>float\<close>, with \<^verbatim>\<open>nan\<close> for a field that
  is no number (genfromtxt does not raise there). The result is the one-dimensional
  array of the values (an array with no entry for a line with no field).
\<close>

definition genfromtxt :: "(string \<Rightarrow> 'a) \<Rightarrow> string \<Rightarrow> 'a list" where
  "genfromtxt float_of line =
     (let line = takeWhile (\<lambda>c. c \<noteq> CHR ''#'') line;
          line = strip_chars [CHR '' '', CHR 0x0D, CHR 0x0A] line
      in if line = [] then [] else map float_of (split_ws line))"

text \<open>
  \<^verbatim>\<open>a.reshape((r, c))\<close> of a one-dimensional array (or of the scalar array that
  genfromtxt returns for a single value): \<^verbatim>\<open>ValueError\<close> unless it has \<open>r * c\<close>
  entries.
\<close>

definition reshape :: "nat \<Rightarrow> nat \<Rightarrow> 'a list \<Rightarrow> error + 'a list list" where
  "reshape r c a =
     (if length a = r * c then Inr (map (\<lambda>i. take c (drop (i * c) a)) [0..<r])
      else Inl ValueError)"

text \<open>\<^verbatim>\<open>np.vstack((a, row))\<close>\<close>

definition vstack :: "'a list list \<Rightarrow> 'a list \<Rightarrow> 'a list list" where
  "vstack a row = a @ [row]"

section \<open>Text: parsing AFNI's transform files\<close>

text \<open>
  The lines that \<^verbatim>\<open>AFNILinearTransform.from_string\<close> keeps: those that are not
  blank, do not start with \<^verbatim>\<open>#\<close> and do not contain \<^verbatim>\<open>3dvolreg matrices\<close>.
\<close>

definition lines_of :: "string \<Rightarrow> string list" where
  "lines_of string =
     filter (\<lambda>line. strip line \<noteq> [] \<and>
                    \<not> (startswith line ''#'' \<or> sublist ''3dvolreg matrices'' line))
       (splitlines string)"

text \<open>
  \<^verbatim>\<open>AFNILinearTransform.from_string(string)\<close>. The bare \<^verbatim>\<open>raise TransformFileError\<close>
  carries no message.
\<close>

definition from_string :: "(string \<Rightarrow> 'a::{zero,one}) \<Rightarrow> string \<Rightarrow> error + 'a AFNILinearTransform" where
  "from_string float_of string =
     (let lines = lines_of string
      in if lines = [] then Inl (TransformFileError [])
         else (case reshape 3 4 (genfromtxt float_of (encode (lines ! 0))) of
                 Inl e \<Rightarrow> Inl e
               | Inr rows \<Rightarrow> Inr \<lparr>parameters = vstack rows [0, 0, 0, 1]\<rparr>))"

text \<open>
  The lines that \<^verbatim>\<open>AFNILinearTransformArray.from_string\<close> keeps, stripped: those
  that are not blank and do not start with \<^verbatim>\<open>#\<close>.
\<close>

definition array_lines_of :: "string \<Rightarrow> string list" where
  "array_lines_of string =
     map strip (filter (\<lambda>line. strip line \<noteq> [] \<and> \<not> startswith line ''#'') (splitlines string))"

text \<open>\<^verbatim>\<open>AFNILinearTransformArray.from_string(string)\<close>\<close>

definition array_from_string ::
  "(string \<Rightarrow> 'a::{zero,one}) \<Rightarrow> string \<Rightarrow> error + 'a AFNILinearTransformArray" where
  "array_from_string float_of string =
     (let lines = array_lines_of string
      in if lines = [] then Inl (TransformFileError ''Input string is empty.'')
         else (case collect (map (from_string float_of) lines) of
                 Inl e \<Rightarrow> Inl e
               | Inr xs \<Rightarrow> Inr \<lparr>xforms = xs\<rparr>))"

section \<open>Arithmetic of numpy on doubles\<close>

text \<open>
  The entries of an affine are finite numbers; the non-finite values come in where numpy
  divides by zero (a warning, no exception) and are carried along from there on.
\<close>

text \<open>\<^verbatim>\<open>x / y\<close> on finite numbers: \<open>0 / 0\<close> is \<^verbatim>\<open>nan\<close>, another \<open>x / 0\<close> is infinite.\<close>

definition true_divide :: "real \<Rightarrow> real \<Rightarrow> f8" where
  "true_divide x y =
     (if y \<noteq> 0 then Finite (x / y)
      else if x = 0 then NaN else if 0 < x then PosInf else NegInf)"

text \<open>\<^verbatim>\<open>np.abs\<close>\<close>

definition np_abs :: "f8 \<Rightarrow> f8" where
  "np_abs x = (case x of Finite v \<Rightarrow> Finite \<bar>v\<bar> | PosInf \<Rightarrow> PosInf | NegInf \<Rightarrow> PosInf | NaN \<Rightarrow> NaN)"

text \<open>The order of the values that are not \<^verbatim>\<open>nan\<close>.\<close>

definition f8_le :: "f8 \<Rightarrow> f8 \<Rightarrow> bool" where
  "f8_le x y =
     (case (x, y) of
        (NaN, _) \<Rightarrow> False
      | (_, NaN) \<Rightarrow> False
      | (NegInf, _) \<Rightarrow> True
      | (_, PosInf) \<Rightarrow> True
      | (Finite a, Finite b) \<Rightarrow> a \<le> b
      | _ \<Rightarrow> False)"

text \<open>
  \<^verbatim>\<open>a.max()\<close> and \<^verbatim>\<open>a.min()\<close> along an axis that is not empty: \<^verbatim>\<open>nan\<close> as soon
  as one entry is \<^verbatim>\<open>nan\<close>.
\<close>

definition maximum :: "f8 \<Rightarrow> f8 \<Rightarrow> f8" where
  "maximum x y = (if x = NaN \<or> y = NaN then NaN else if f8_le x y then y else x)"

definition minimum :: "f8 \<Rightarrow> f8 \<Rightarrow> f8" where
  "minimum x y = (if x = NaN \<or> y = NaN then NaN else if f8_le x y then x else y)"

definition np_max :: "f8 list \<Rightarrow> f8" where
  "np_max a = foldl maximum (hd a) (tl a)"

definition np_min :: "f8 list \<Rightarrow> f8" where
  "np_min a = foldl minimum (hd a) (tl a)"

text \<open>\<^verbatim>\<open>np.arccos\<close>: \<^verbatim>\<open>nan\<close> outside \<open>[-1, 1]\<close>.\<close>

definition np_arccos :: "f8 \<Rightarrow> f8" where
  "np_arccos x =
     (case x of Finite v \<Rightarrow> if - 1 \<le> v \<and> v \<le> 1 then Finite (arccos v) else NaN | _ \<Rightarrow> NaN)"

text \<open>\<^verbatim>\<open>x * 180 / pi\<close> and \<^verbatim>\<open>x > thres\<close>; a comparison with \<^verbatim>\<open>nan\<close> is false.\<close>

definition to_degrees :: "f8 \<Rightarrow> f8" where
  "to_degrees x = (case x of Finite v \<Rightarrow> Finite (v * 180 / pi) | _ \<Rightarrow> x)"

definition f8_greater :: "f8 \<Rightarrow> real \<Rightarrow> bool" where
  "f8_greater x t = (case x of Finite v \<Rightarrow> t < v | PosInf \<Rightarrow> True | _ \<Rightarrow> False)"

section \<open>Obliquity\<close>

text \<open>
  The two functions of \<^verbatim>\<open>nibabel.affines\<close> that the adapter imports.
  \<^verbatim>\<open>voxel_sizes(affine)\<close> is
  \<^verbatim>\<open>np.sqrt(np.sum(affine[:-1, :-1] ** 2, axis=0))\<close>, the lengths of the columns of
  the upper left block.
\<close>

definition top_left :: "mat \<Rightarrow> mat" where
  "top_left aff = map butlast (butlast aff)"

definition voxel_sizes :: "mat \<Rightarrow> real list" where
  "voxel_sizes aff =
     map (\<lambda>j. sqrt (sum_list (map (\<lambda>x. x\<^sup>2) (column (top_left aff) j))))
       [0..<ncols (top_left aff)]"

text \<open>
  \<^verbatim>\<open>obliquity(affine)\<close> is
  \<^verbatim>\<open>np.arccos(np.abs(affine[:-1, :-1] / vs).max(axis=1))\<close> with
  \<^verbatim>\<open>vs = voxel_sizes(affine)\<close>: the division is of the entry in column \<open>j\<close> by the
  \<open>j\<close>-th voxel size, and the maximum is taken in each row.
\<close>

definition obliquity :: "mat \<Rightarrow> f8 list" where
  "obliquity aff =
     (let vs = voxel_sizes aff;
          best_cosines = map (\<lambda>row. np_max (map np_abs (map2 true_divide row vs)))
                           (top_left aff)
      in map np_arccos best_cosines)"

text \<open>\<^verbatim>\<open>OBLIQUITY_THRESHOLD_DEG = 0.01\<close>\<close>

definition OBLIQUITY_THRESHOLD_DEG :: real where
  "OBLIQUITY_THRESHOLD_DEG = 1 / 100"

text \<open>
  \<^verbatim>\<open>_is_oblique(affine, thres=OBLIQUITY_THRESHOLD_DEG)\<close>; \<open>None\<close> for \<open>thres\<close> is a
  call that leaves the argument out.
\<close>

definition is_oblique :: "mat \<Rightarrow> real option \<Rightarrow> bool" where
  "is_oblique aff thres =
     f8_greater (to_degrees (np_min (obliquity aff)))
       (case thres of None \<Rightarrow> OBLIQUITY_THRESHOLD_DEG | Some t \<Rightarrow> t)"

text \<open>
  The obliquity angles in the words of the specification, in degrees: for each of the
  three rows of the rotation block, the angle whose cosine is the largest absolute entry
  of the row after each column has been scaled to length one.
\<close>

definition column_length :: "mat \<Rightarrow> nat \<Rightarrow> real" where
  "column_length A j = sqrt ((A ! 0 ! j)\<^sup>2 + (A ! 1 ! j)\<^sup>2 + (A ! 2 ! j)\<^sup>2)"

definition obliquity_angles_deg :: "mat \<Rightarrow> real list" where
  "obliquity_angles_deg A =
     map (\<lambda>i. arccos (Max (set (map (\<lambda>j. \<bar>A ! i ! j\<bar> / column_length A j) [0, 1, 2]))) * 180 / pi)
       [0, 1, 2]"

section \<open>Determinants and the inverse of a matrix\<close>

text \<open>
  \<^verbatim>\<open>np.linalg.inv(M)\<close> returns the inverse of a square matrix and raises
  \<^verbatim>\<open>LinAlgError\<close> on a singular one. In exact arithmetic the matrix is singular when
  its determinant is 0, and the inverse is the transposed matrix of cofactors divided by
  the determinant. The determinant is expanded along the first row.
\<close>

definition remove_nth :: "nat \<Rightarrow> 'a list \<Rightarrow> 'a list" where
  "remove_nth j xs = take j xs @ drop (Suc j) xs"

function det :: "mat \<Rightarrow> real" where
  "det [] = 1"
| "det (row # rows) =
     (\<Sum>j\<leftarrow>[0..<length row]. (- 1) ^ j * row ! j * det (map (remove_nth j) rows))"
  by pat_completeness auto
termination
  by (relation "measure length") auto

definition cofactor :: "mat \<Rightarrow> nat \<Rightarrow> nat \<Rightarrow> real" where
  "cofactor M i j = (- 1) ^ (i + j) * det (map (remove_nth j) (remove_nth i M))"

definition adjugate :: "mat \<Rightarrow> mat" where
  "adjugate M = map (\<lambda>i. map (\<lambda>j. cofactor M j i) [0..<length M]) [0..<length M]"

definition linalg_inv :: "mat \<Rightarrow> error + mat" where
  "linalg_inv M =
     (if det M = 0 then Inl LinAlgError
      else Inr (map (map (\<lambda>x. x / det M)) (adjugate M)))"

section \<open>The warpdrive matrix\<close>

text \<open>\<^verbatim>\<open>A @ v\<close> for a vector \<open>v\<close>.\<close>

definition matvec :: "mat \<Rightarrow> real list \<Rightarrow> real list" where
  "matvec A v = map (\<lambda>row. dot row v) A"

text \<open>\<^verbatim>\<open>np.abs(M).max(0)\<close>: the largest absolute value in each column.\<close>

definition abs_max0 :: "mat \<Rightarrow> real list" where
  "abs_max0 M = map (\<lambda>j. Max (set (map abs (column M j)))) [0..<ncols M]"

text \<open>
  The plumb affine that \<^verbatim>\<open>_afni_warpdrive\<close> builds from the oblique affine and the
  first three extents of the grid (lines 190 to 198 of the source).
  \<^verbatim>\<open>M / v\<close> and \<^verbatim>\<open>M *= v\<close> with a vector \<open>v\<close> work on each row, entry by entry;
  \<^verbatim>\<open>plumb_r[np.abs(plumb_r) < 1.0] = 0\<close> zeroes the entries of absolute value below 1.
  Where a column of the rotation block is zero numpy divides by zero and goes on with
  \<^verbatim>\<open>nan\<close>; an affine with bottom row \<open>[0, 0, 0, 1]\<close> is singular then, and
  \<^verbatim>\<open>np.linalg.inv(oblique)\<close> raises.
\<close>

definition plumb_rotation :: "mat \<Rightarrow> mat" where
  "plumb_rotation oblique =
     (let rot = map (take 3) (take 3 oblique);
          plumb_r = map (\<lambda>row. map2 (/) row (abs_max0 rot)) rot;
          plumb_r = map (map (\<lambda>x. if \<bar>x\<bar> < 1 then 0 else x)) plumb_r;
          plumb_r = map (\<lambda>row. map2 (*) row (voxel_sizes oblique)) plumb_r
      in plumb_r)"

text \<open>\<^verbatim>\<open>M[:3, :3] = block\<close> and \<^verbatim>\<open>M[:3, 3] = v\<close> on a \<open>4 \<times> 4\<close> matrix.\<close>

definition set_rotation :: "mat \<Rightarrow> mat \<Rightarrow> mat" where
  "set_rotation M block = map2 (\<lambda>row b. b @ drop 3 row) (take 3 M) block @ drop 3 M"

definition set_translation :: "mat \<Rightarrow> real list \<Rightarrow> mat" where
  "set_translation M v = map2 (\<lambda>row x. take 3 row @ [x]) (take 3 M) v @ drop 3 M"

definition plumb_affine :: "mat \<Rightarrow> real list \<Rightarrow> mat" where
  "plumb_affine oblique shp =
     (let plumb = set_rotation (eye 4) (plumb_rotation oblique);
          obliq_c = matvec oblique (map (\<lambda>x. 0.5 * x) shp @ [1]);
          plumb_c = matvec plumb (map (\<lambda>x. 0.5 * x) shp @ [1])
      in set_translation plumb (map2 (\<lambda>p ob. - p + ob) (take 3 plumb_c) (take 3 obliq_c)))"

text \<open>
  \<^verbatim>\<open>_afni_warpdrive(oblique, shape, forward=True, ras=False)\<close>, on a \<open>4 \<times> 4\<close>
  affine (numpy rejects another shape in the products) and a grid shape, of which the
  first three extents are used (with fewer than three the product with the affine
  raises).
\<close>

definition afni_warpdrive :: "mat \<Rightarrow> nat list \<Rightarrow> bool \<Rightarrow> bool \<Rightarrow> error + mat" where
  "afni_warpdrive oblique shp forward ras =
     (if \<not> has_shape 4 4 oblique \<or> length (take 3 shp) \<noteq> 3 then Inl ValueError
      else (let plumb = plumb_affine oblique (map real (take 3 shp))
            in case linalg_inv oblique of
                 Inl e \<Rightarrow> Inl e
               | Inr oblique_inv \<Rightarrow>
                   (let R = matmul plumb oblique_inv;
                        R = (if \<not> ras then matmul (matmul LPS R) LPS else R)
                    in if forward then Inr R else linalg_inv R)))"

section \<open>Shapes and products of \<open>4 \<times> 4\<close> matrices\<close>

lemma length4E:
  assumes "length xs = 4"
  obtains a b c d where "xs = [a, b, c, d]"
  using assms by (auto simp: length_Suc_conv numeral_eq_Suc)

lemma has_shape_4_4E:
  assumes "has_shape 4 4 M"
  obtains a0 a1 a2 a3 b0 b1 b2 b3 c0 c1 c2 c3 d0 d1 d2 d3 where
    "M = [[a0, a1, a2, a3], [b0, b1, b2, b3], [c0, c1, c2, c3], [d0, d1, d2, d3]]"
proof -
  from assms obtain r0 r1 r2 r3 where M: "M = [r0, r1, r2, r3]"
    by (auto simp: has_shape_def elim: length4E)
  with assms have "length r0 = 4" "length r1 = 4" "length r2 = 4" "length r3 = 4"
    by (simp_all add: has_shape_def)
  then show thesis using M that by (metis length4E)
qed

lemma upt4: "[0..<4] = [0, 1, 2, 3]"
  by (simp add: upt_rec)

lemma swapaxes01_4_4:
  "swapaxes01 [[a0, a1, a2, a3], [b0, b1, b2, b3], [c0, c1, c2, c3], [d0, d1, d2, d3]]
   = [[a0, b0, c0, d0], [a1, b1, c1, d1], [a2, b2, c2, d2], [a3, b3, c3, d3]]"
  by (simp add: swapaxes01_def ncols_def column_def upt4)

lemma LPS_matmul:
  "matmul LPS [[a0, a1, a2, a3], [b0, b1, b2, b3], [c0, c1, c2, c3], [d0, d1, d2, d3]]
   = [[- a0, - a1, - a2, - a3], [- b0, - b1, - b2, - b3], [c0, c1, c2, c3], [d0, d1, d2, d3]]"
  by (simp add: matmul_def LPS_def diag_def dot_def ncols_def column_def upt4)

lemma matmul_LPS:
  "matmul [[a0, a1, a2, a3], [b0, b1, b2, b3], [c0, c1, c2, c3], [d0, d1, d2, d3]] LPS
   = [[- a0, - a1, a2, a3], [- b0, - b1, b2, b3], [- c0, - c1, c2, c3], [- d0, - d1, d2, d3]]"
  by (simp add: matmul_def LPS_def diag_def dot_def ncols_def column_def upt4)

lemma within_tol_refl: "0 \<le> tol \<Longrightarrow> within_tol tol A A"
  by (simp add: within_tol_def list_all2_same)

lemma from_ras_to_ras:
  assumes "has_shape 4 4 M"
  shows "\<exists>p. from_ras M a b = Inr p \<and> to_ras p c d = M"
proof -
  from assms obtain a0 a1 a2 a3 b0 b1 b2 b3 c0 c1 c2 c3 d0 d1 d2 d3 where
    M: "M = [[a0, a1, a2, a3], [b0, b1, b2, b3], [c0, c1, c2, c3], [d0, d1, d2, d3]]"
    by (rule has_shape_4_4E)
  show ?thesis using assms unfolding M
    by (simp add: from_ras_def to_ras_def T_def swapaxes01_4_4 LPS_matmul matmul_LPS)
qed

lemma collect_map_Inr:
  "(\<And>x. x \<in> set xs \<Longrightarrow> f x = Inr (g x)) \<Longrightarrow> collect (map f xs) = Inr (map g xs)"
  by (induction xs) auto

lemma array_from_ras_to_ras:
  assumes "list_all (has_shape 4 4) ras"
  shows "\<exists>p. array_from_ras ras a b = Inr p \<and> map (\<lambda>x. to_ras x c d) (xforms p) = ras"
proof -
  define g where "g i = (SOME p. from_ras (ras ! i) a b = Inr p \<and> to_ras p c d = ras ! i)" for i
  have g: "from_ras (ras ! i) a b = Inr (g i) \<and> to_ras (g i) c d = ras ! i"
    if "i < length ras" for i
  proof -
    from that assms have "has_shape 4 4 (ras ! i)"
      by (simp add: list_all_length)
    from from_ras_to_ras [OF this, of a b c d] show ?thesis
      unfolding g_def by (rule someI_ex)
  qed
  have "collect (map (\<lambda>i. from_ras (ras ! i) a b) [0..<length ras]) = Inr (map g [0..<length ras])"
    by (rule collect_map_Inr) (simp add: g)
  moreover have "map (\<lambda>x. to_ras x c d) (map g [0..<length ras]) = ras"
    by (rule nth_equalityI) (simp_all add: g)
  ultimately show ?thesis
    by (simp add: array_from_ras_def)
qed

section \<open>The round trip between the internal and the AFNI convention\<close>

text \<open>
  Claim C1, as it stands, fails on the stack with no matrix (shape \<open>(0, 4, 4)\<close>):
  \<^verbatim>\<open>from_ras\<close> builds an array with no transform and \<^verbatim>\<open>to_ras\<close> then calls
  \<^verbatim>\<open>np.stack\<close> on the empty list, which raises \<^verbatim>\<open>ValueError\<close>.
\<close>

theorem C1_empty_stack_raises:
  "list_all valid_ras [] \<and>
   array_from_ras [] (None :: unit option) (None :: unit option) = Inr \<lparr>xforms = []\<rparr> \<and>
   array_to_ras \<lparr>xforms = []\<rparr> (None :: unit option) (None :: unit option) = Inl ValueError"
  by (simp add: array_from_ras_def array_to_ras_def stack_def)

text \<open>
  Claim C1, amended: for every \<open>4 \<times> 4\<close> matrix \<open>M\<close> with bottom row
  \<open>[0, 0, 0, 1]\<close>, \<^verbatim>\<open>from_ras\<close> succeeds and \<^verbatim>\<open>to_ras\<close> of the result is \<open>M\<close>
  (exactly, hence within \<open>1e-5\<close>); and for every stack of such matrices that holds at
  least one matrix, \<^verbatim>\<open>AFNILinearTransformArray.from_ras\<close> succeeds with as many
  transforms as the stack has matrices, and \<^verbatim>\<open>to_ras\<close> of the result is the stack,
  in the same order. Whatever is passed for \<^verbatim>\<open>moving\<close> and \<^verbatim>\<open>reference\<close>.
\<close>

theorem C1_ras_roundtrip:
  "(valid_ras M \<longrightarrow>
      (\<exists>p. from_ras M a b = Inr p \<and> to_ras p c d = M \<and>
           within_tol (1 / 100000) (to_ras p c d) M)) \<and>
   (list_all valid_ras ras \<and> ras \<noteq> [] \<longrightarrow>
      (\<exists>p out. array_from_ras ras a b = Inr p \<and> length (xforms p) = length ras \<and>
           array_to_ras p c d = Inr out \<and> out = ras \<and>
           list_all2 (within_tol (1 / 100000)) out ras))"
proof (intro conjI impI)
  assume "valid_ras M"
  then have "has_shape 4 4 M"
    by (simp add: valid_ras_def)
  from from_ras_to_ras [OF this, of a b c d]
  show "\<exists>p. from_ras M a b = Inr p \<and> to_ras p c d = M \<and>
           within_tol (1 / 100000) (to_ras p c d) M"
    by (auto simp: within_tol_refl)
next
  assume ras: "list_all valid_ras ras \<and> ras \<noteq> []"
  then have "list_all (has_shape 4 4) ras"
    by (simp add: list_all_iff valid_ras_def)
  from array_from_ras_to_ras [OF this, of a b c d]
  obtain p where p: "array_from_ras ras a b = Inr p" "map (\<lambda>x. to_ras x c d) (xforms p) = ras"
    by blast
  from p(2) have len: "length (xforms p) = length ras"
    by (metis length_map)
  have "array_to_ras p c d = Inr ras"
    using p(2) ras by (simp add: array_to_ras_def stack_def)
  moreover have "list_all2 (within_tol (1 / 100000)) ras ras"
    by (simp add: list_all2_same within_tol_refl)
  ultimately show "\<exists>p out. array_from_ras ras a b = Inr p \<and> length (xforms p) = length ras \<and>
           array_to_ras p c d = Inr out \<and> out = ras \<and>
           list_all2 (within_tol (1 / 100000)) out ras"
    using p(1) len by blast
qed

theorem C1_ras_roundtrip_witness:
  "valid_ras [[1, 2, 3, 4], [5, 6, 7, 8], [9, 10, 11, 12], [0, 0, 0, 1]] \<and>
   (\<exists>p. from_ras [[1, 2, 3, 4], [5, 6, 7, 8], [9, 10, 11, 12], [0, 0, 0, 1]]
          (None :: unit option) (None :: unit option) = Inr p \<and>
        to_ras p (None :: unit option) (None :: unit option)
          = [[1, 2, 3, 4], [5, 6, 7, 8], [9, 10, 11, 12], [0, 0, 0, 1]]) \<and>
   list_all valid_ras
     [[[1, 2, 3, 4], [5, 6, 7, 8], [9, 10, 11, 12], [0, 0, 0, 1]],
      [[0, -1, 0, 7], [1, 0, 0, 0], [0, 0, 2, -3], [0, 0, 0, 1]]] \<and>
   (\<exists>p. array_from_ras
          [[[1, 2, 3, 4], [5, 6, 7, 8], [9, 10, 11, 12], [0, 0, 0, 1]],
           [[0, -1, 0, 7], [1, 0, 0, 0], [0, 0, 2, -3], [0, 0, 0, 1]]]
          (None :: unit option) (None :: unit option) = Inr p \<and>
        length (xforms p) = 2 \<and>
        array_to_ras p (None :: unit option) (None :: unit option)
          = Inr [[[1, 2, 3, 4], [5, 6, 7, 8], [9, 10, 11, 12], [0, 0, 0, 1]],
                 [[0, -1, 0, 7], [1, 0, 0, 0], [0, 0, 2, -3], [0, 0, 0, 1]]])"
  using C1_ras_roundtrip
    [of "[[1, 2, 3, 4], [5, 6, 7, 8], [9, 10, 11, 12], [0, 0, 0, 1]]"
        "None :: unit option" "None :: unit option" "None :: unit option" "None :: unit option"
        "[[[1, 2, 3, 4], [5, 6, 7, 8], [9, 10, 11, 12], [0, 0, 0, 1]],
          [[0, -1, 0, 7], [1, 0, 0, 0], [0, 0, 2, -3], [0, 0, 0, 1]]]"]
  by (auto simp: valid_ras_def has_shape_def)

section \<open>The spaces of the transform are not consulted\<close>

text \<open>
  Claim C9: \<^verbatim>\<open>AFNILinearTransform.from_ras\<close> and \<^verbatim>\<open>to_ras\<close> ignore their
  \<^verbatim>\<open>moving\<close> and \<^verbatim>\<open>reference\<close> arguments: for any matrix and any two choices of
  the two arguments \<^verbatim>\<open>from_ras\<close> stores the same parameters (or raises the same
  error), and \<^verbatim>\<open>to_ras\<close> returns the same matrix.
\<close>

theorem C9_moving_reference_ignored:
  "from_ras M a1 b1 = from_ras M a2 b2 \<and> to_ras p a1 b1 = to_ras p a2 b2"
  by (simp add: from_ras_def to_ras_def)

section \<open>Importing a displacements field\<close>

lemma length5E:
  assumes "length xs = 5"
  obtains a b c d e where "xs = [a, b, c, d, e]"
  using assms by (auto simp: length_Suc_conv numeral_eq_Suc)

lemma conforming_shape:
  "conforming shp \<longleftrightarrow> (\<exists>X Y Z C. shp = [X, Y, Z, 1, C] \<and> (C = 2 \<or> C = 3))"
  by (auto simp: conforming_def elim!: length5E)

lemma row_major_bound: "a < A \<Longrightarrow> b < B \<Longrightarrow> a * B + b < A * (B::nat)"
proof -
  assume a: "a < A" and b: "b < B"
  have "a * B + b < a * B + B" using b by simp
  also have "\<dots> = (a + 1) * B" by simp
  also have "\<dots> \<le> A * B" using a by (intro mult_le_mono1) simp
  finally show ?thesis .
qed

lemma from_image_nonconforming:
  "\<not> conforming (data_shape (header img)) \<Longrightarrow>
   from_image img = Inl (TransformFileError
         (''Displacements field '' @ [CHR 0x22] @ str_filename (filename img) @
           [CHR 0x22] @ '' does not come from AFNI.''))"
  by (auto simp: from_image_def Let_def conforming_def)

text \<open>What the in-place flip does to the squeezed array of a conforming image.\<close>

lemma flip_conforming:
  assumes wf: "wf_image img" and shp: "data_shape (header img) = [X, Y, Z, 1, C]"
    and C: "C = 2 \<or> C = 3"
  shows "flip_first_two (squeeze (asanyarray img)) =
     (if dtype (dataobj img) = Integral then Inl UFuncTypeError
      else if \<not> is_proxy img \<and> \<not> writeable (dataobj img) then Inl ValueError
      else Inr ((asanyarray img)\<lparr>shape := filter (\<lambda>n. n \<noteq> 1) [X, Y, Z] @ [C],
                  data := flipped C (data (dataobj img))\<rparr>))"
proof -
  from wf shp have s: "shape (dataobj img) = [X, Y, Z, 1, C]"
    by (simp add: wf_image_def)
  have sq: "shape (squeeze (asanyarray img)) = filter (\<lambda>n. n \<noteq> 1) [X, Y, Z] @ [C]"
    "data (squeeze (asanyarray img)) = data (dataobj img)"
    "dtype (squeeze (asanyarray img)) = dtype (dataobj img)"
    "writeable (squeeze (asanyarray img)) = (is_proxy img \<or> writeable (dataobj img))"
    using C s by (auto simp: squeeze_def asanyarray_def)
  have last: "last (filter (\<lambda>n. n \<noteq> 1) [X, Y, Z] @ [C]) = C"
    by simp
  have flip: "map (\<lambda>k. if k mod C \<in> set [0, 1] then data (dataobj img) ! k * (- 1)
                        else data (dataobj img) ! k) [0..<length (data (dataobj img))]
      = flipped C (data (dataobj img))"
    by (simp add: flipped_def less_2_cases_iff)
  have eq: "(squeeze (asanyarray img))\<lparr>data := flipped C (data (dataobj img))\<rparr>
      = (asanyarray img)\<lparr>shape := filter (\<lambda>n. n \<noteq> 1) [X, Y, Z] @ [C],
                  data := flipped C (data (dataobj img))\<rparr>"
    using C s by (auto simp: squeeze_def asanyarray_def)
  show ?thesis
    unfolding flip_first_two_def sq last flip eq using C by auto
qed

lemma from_image_conforming:
  assumes wf: "wf_image img" and shp: "data_shape (header img) = [X, Y, Z, 1, C]"
    and C: "C = 2 \<or> C = 3"
  shows "from_image img =
     (if dtype (dataobj img) = Integral then Inl UFuncTypeError
      else if \<not> is_proxy img \<and> \<not> writeable (dataobj img) then Inl ValueError
      else Inr (new_image
                  ((asanyarray img)\<lparr>shape := filter (\<lambda>n. n \<noteq> 1) [X, Y, Z] @ [C],
                      data := flipped C (data (dataobj img))\<rparr>)
                  (affine img) (header img),
                if is_proxy img then img
                else img\<lparr>dataobj := (dataobj img)\<lparr>data := flipped C (data (dataobj img))\<rparr>\<rparr>))"
proof -
  have "from_image img =
     (case flip_first_two (squeeze (asanyarray img)) of
        Inl e \<Rightarrow> Inl e
      | Inr field \<Rightarrow>
          Inr (new_image field (affine img) (header img),
               if is_proxy img then img
               else img\<lparr>dataobj := (dataobj img)\<lparr>data := data field\<rparr>\<rparr>))"
    using shp C by (auto simp: from_image_def Let_def)
  then show ?thesis
    unfolding flip_conforming [OF assms] by simp
qed

text \<open>
  Claim C3, as it stands, fails on a conforming image whose samples are integers (an
  image stored as \<^verbatim>\<open>int16\<close> without scaling): the shape passes the test, and the
  in-place product with the float \<open>-1.0\<close> raises \<^verbatim>\<open>UFuncTypeError\<close>.
\<close>

theorem C3_integer_samples_raise:
  "wf_image \<lparr>header = \<lparr>data_shape = [1, 1, 2, 1, 3]\<rparr>,
             dataobj = \<lparr>shape = [1, 1, 2, 1, 3], data = [1, 2, 3, 4, 5, 6],
                        dtype = Integral, writeable = True\<rparr>,
             is_proxy = True, affine = eye 4, filename = Some ''warp.nii''\<rparr> \<and>
   conforming [1, 1, 2, 1, 3] \<and>
   from_image \<lparr>header = \<lparr>data_shape = [1, 1, 2, 1, 3]\<rparr>,
             dataobj = \<lparr>shape = [1, 1, 2, 1, 3], data = [1, 2, 3, 4, 5, 6],
                        dtype = Integral, writeable = True\<rparr>,
             is_proxy = True, affine = eye 4, filename = Some ''warp.nii''\<rparr>
     = Inl UFuncTypeError"
  by (simp add: wf_image_def wf_ndarray_def conforming_def from_image_def flip_first_two_def
      squeeze_def asanyarray_def)

text \<open>
  Claim C3, amended: \<^verbatim>\<open>AFNIDisplacementsField.from_image\<close> raises
  \<^verbatim>\<open>TransformFileError\<close> whenever the shape of the data is not five-dimensional with
  a second-to-last axis of length 1 and a last axis of length 2 or 3, and the message of
  the error carries the name of the file of the image. On an image of a conforming shape
  (whose header agrees with its data) it does not raise when the samples are floating
  point numbers and the array can be written (it can when the image holds an array
  proxy); it raises \<^verbatim>\<open>UFuncTypeError\<close> when the samples are integers, and
  \<^verbatim>\<open>ValueError\<close> when the image holds a read-only array of floating point samples.
\<close>

theorem C3_from_image_format_error:
  "(\<not> conforming (data_shape (header img)) \<longrightarrow>
      from_image img = Inl (TransformFileError
         (''Displacements field '' @ [CHR 0x22] @ str_filename (filename img) @
           [CHR 0x22] @ '' does not come from AFNI.'')) \<and>
      (\<forall>name. filename img = Some name \<longrightarrow>
         (\<exists>m. from_image img = Inl (TransformFileError m) \<and> sublist name m))) \<and>
   (wf_image img \<and> conforming (data_shape (header img)) \<longrightarrow>
      (dtype (dataobj img) = Floating \<and> (is_proxy img \<or> writeable (dataobj img)) \<longrightarrow>
         (\<exists>out img'. from_image img = Inr (out, img'))) \<and>
      (dtype (dataobj img) = Integral \<longrightarrow> from_image img = Inl UFuncTypeError) \<and>
      (dtype (dataobj img) = Floating \<and> \<not> is_proxy img \<and> \<not> writeable (dataobj img) \<longrightarrow>
         from_image img = Inl ValueError))"
proof (intro conjI impI allI)
  assume "\<not> conforming (data_shape (header img))"
  then show e: "from_image img = Inl (TransformFileError
         (''Displacements field '' @ [CHR 0x22] @ str_filename (filename img) @
           [CHR 0x22] @ '' does not come from AFNI.''))"
    by (rule from_image_nonconforming)
  fix name assume "filename img = Some name"
  then have "str_filename (filename img) = name"
    by (simp add: str_filename_def)
  then have "sublist name (''Displacements field '' @ [CHR 0x22] @ str_filename (filename img) @
           [CHR 0x22] @ '' does not come from AFNI.'')"
    unfolding sublist_def by (metis append.assoc)
  with e show "\<exists>m. from_image img = Inl (TransformFileError m) \<and> sublist name m"
    by blast
next
  assume a: "wf_image img \<and> conforming (data_shape (header img))"
  then obtain X Y Z C where s: "data_shape (header img) = [X, Y, Z, 1, C]" "C = 2 \<or> C = 3"
    by (auto simp: conforming_shape)
  from a have wf: "wf_image img" ..
  note r = from_image_conforming [OF wf s]
  show "\<exists>out img'. from_image img = Inr (out, img')"
    if "dtype (dataobj img) = Floating \<and> (is_proxy img \<or> writeable (dataobj img))"
    using that unfolding r by auto
  show "from_image img = Inl UFuncTypeError" if "dtype (dataobj img) = Integral"
    using that unfolding r by simp
  show "from_image img = Inl ValueError"
    if "dtype (dataobj img) = Floating \<and> \<not> is_proxy img \<and> \<not> writeable (dataobj img)"
    using that unfolding r by simp
qed

theorem C3_from_image_format_error_witness:
  "\<not> conforming [1, 1, 2, 3] \<and>
   from_image \<lparr>header = \<lparr>data_shape = [1, 1, 2, 3]\<rparr>,
             dataobj = \<lparr>shape = [1, 1, 2, 3], data = [1, 2, 3, 4, 5, 6],
                        dtype = Floating, writeable = True\<rparr>,
             is_proxy = True, affine = eye 4, filename = Some ''warp.nii''\<rparr>
    = Inl (TransformFileError (''Displacements field '' @ [CHR 0x22] @ ''warp.nii'' @
                               [CHR 0x22] @ '' does not come from AFNI.'')) \<and>
   wf_image \<lparr>header = \<lparr>data_shape = [1, 1, 2, 1, 3]\<rparr>,
             dataobj = \<lparr>shape = [1, 1, 2, 1, 3], data = [1, 2, 3, 4, 5, 6],
                        dtype = Floating, writeable = False\<rparr>,
             is_proxy = True, affine = eye 4, filename = Some ''warp.nii''\<rparr> \<and>
   conforming [1, 1, 2, 1, 3] \<and>
   (\<exists>out img'. from_image \<lparr>header = \<lparr>data_shape = [1, 1, 2, 1, 3]\<rparr>,
             dataobj = \<lparr>shape = [1, 1, 2, 1, 3], data = [1, 2, 3, 4, 5, 6],
                        dtype = Floating, writeable = False\<rparr>,
             is_proxy = True, affine = eye 4, filename = Some ''warp.nii''\<rparr> = Inr (out, img')) \<and>
   from_image \<lparr>header = \<lparr>data_shape = [1, 1, 2, 1, 3]\<rparr>,
             dataobj = \<lparr>shape = [1, 1, 2, 1, 3], data = [1, 2, 3, 4, 5, 6],
                        dtype = Integral, writeable = True\<rparr>,
             is_proxy = False, affine = eye 4, filename = None\<rparr> = Inl UFuncTypeError \<and>
   from_image \<lparr>header = \<lparr>data_shape = [1, 1, 2, 1, 3]\<rparr>,
             dataobj = \<lparr>shape = [1, 1, 2, 1, 3], data = [1, 2, 3, 4, 5, 6],
                        dtype = Floating, writeable = False\<rparr>,
             is_proxy = False, affine = eye 4, filename = None\<rparr> = Inl ValueError"
  using C3_from_image_format_error [of "\<lparr>header = \<lparr>data_shape = [1, 1, 2, 3]\<rparr>,
             dataobj = \<lparr>shape = [1, 1, 2, 3], data = [1, 2, 3, 4, 5, 6],
                        dtype = Floating, writeable = True\<rparr>,
             is_proxy = True, affine = eye 4, filename = Some ''warp.nii''\<rparr>"]
    C3_from_image_format_error [of "\<lparr>header = \<lparr>data_shape = [1, 1, 2, 1, 3]\<rparr>,
             dataobj = \<lparr>shape = [1, 1, 2, 1, 3], data = [1, 2, 3, 4, 5, 6],
                        dtype = Floating, writeable = False\<rparr>,
             is_proxy = True, affine = eye 4, filename = Some ''warp.nii''\<rparr>"]
    C3_from_image_format_error [of "\<lparr>header = \<lparr>data_shape = [1, 1, 2, 1, 3]\<rparr>,
             dataobj = \<lparr>shape = [1, 1, 2, 1, 3], data = [1, 2, 3, 4, 5, 6],
                        dtype = Integral, writeable = True\<rparr>,
             is_proxy = False, affine = eye 4, filename = None\<rparr>"]
    C3_from_image_format_error [of "\<lparr>header = \<lparr>data_shape = [1, 1, 2, 1, 3]\<rparr>,
             dataobj = \<lparr>shape = [1, 1, 2, 1, 3], data = [1, 2, 3, 4, 5, 6],
                        dtype = Floating, writeable = False\<rparr>,
             is_proxy = False, affine = eye 4, filename = None\<rparr>"]
  by (simp add: conforming_def wf_image_def wf_ndarray_def str_filename_def)

text \<open>
  Claim C4, as it stands, fails on a field with one slice, of shape \<open>(2, 2, 1, 1, 2)\<close>:
  \<^verbatim>\<open>np.squeeze\<close> removes the third axis together with the fourth, and the data
  returned has the shape \<open>(2, 2, 2)\<close>, not \<open>(2, 2, 1, 2)\<close>.
\<close>

theorem C4_squeeze_removes_other_unit_axes:
  "wf_image \<lparr>header = \<lparr>data_shape = [2, 2, 1, 1, 2]\<rparr>,
             dataobj = \<lparr>shape = [2, 2, 1, 1, 2], data = [1, 2, 3, 4, 5, 6, 7, 8],
                        dtype = Floating, writeable = True\<rparr>,
             is_proxy = True, affine = eye 4, filename = Some ''warp.nii''\<rparr> \<and>
   conforming [2, 2, 1, 1, 2] \<and>
   from_image \<lparr>header = \<lparr>data_shape = [2, 2, 1, 1, 2]\<rparr>,
             dataobj = \<lparr>shape = [2, 2, 1, 1, 2], data = [1, 2, 3, 4, 5, 6, 7, 8],
                        dtype = Floating, writeable = True\<rparr>,
             is_proxy = True, affine = eye 4, filename = Some ''warp.nii''\<rparr>
    = Inr (\<lparr>header = \<lparr>data_shape = [2, 2, 2]\<rparr>,
             dataobj = \<lparr>shape = [2, 2, 2], data = [-1, -2, -3, -4, -5, -6, -7, -8],
                        dtype = Floating, writeable = True\<rparr>,
             is_proxy = False, affine = eye 4, filename = None\<rparr>,
           \<lparr>header = \<lparr>data_shape = [2, 2, 1, 1, 2]\<rparr>,
             dataobj = \<lparr>shape = [2, 2, 1, 1, 2], data = [1, 2, 3, 4, 5, 6, 7, 8],
                        dtype = Floating, writeable = True\<rparr>,
             is_proxy = True, affine = eye 4, filename = Some ''warp.nii''\<rparr>) \<and>
   spec_field \<lparr>shape = [2, 2, 1, 1, 2], data = [1, 2, 3, 4, 5, 6, 7, 8],
               dtype = Floating, writeable = True\<rparr>
    = \<lparr>shape = [2, 2, 1, 2], data = [-1, -2, -3, -4, -5, -6, -7, -8],
       dtype = Floating, writeable = True\<rparr>"
  by (simp add: wf_image_def wf_ndarray_def conforming_def from_image_def flip_first_two_def
      squeeze_def asanyarray_def new_image_def spec_field_def upt_rec Let_def)

text \<open>
  Claim C4, amended: for every image whose data has a conforming shape
  \<open>(X, Y, Z, 1, C)\<close> with \<open>C\<close> 2 or 3, floating point samples and an array that can be
  written (or an array proxy), \<^verbatim>\<open>from_image\<close> returns an image with the affine of
  the input, whose data has the entries of the input in the same order, those at the
  indices 0 and 1 of the last axis multiplied by \<open>-1\<close>, and whose shape is
  \<open>(X, Y, Z, C)\<close> without every axis of length 1 (the fourth axis, and each of
  \<open>X\<close>, \<open>Y\<close>, \<open>Z\<close> that is 1). When none of \<open>X\<close>, \<open>Y\<close>, \<open>Z\<close> is 1, the data is
  the input with the singleton axis squeezed out and the two components flipped. An
  image that holds an array proxy is left as it was; in an image that holds an array the
  same entries have changed sign after the call.
\<close>

theorem C4_from_image_field:
  assumes "wf_image img" and "data_shape (header img) = [X, Y, Z, 1, C]" and "C = 2 \<or> C = 3"
    and "dtype (dataobj img) = Floating" and "is_proxy img \<or> writeable (dataobj img)"
  shows "\<exists>out img'. from_image img = Inr (out, img') \<and> affine out = affine img \<and>
     shape (dataobj out) = filter (\<lambda>n. n \<noteq> 1) [X, Y, Z] @ [C] \<and>
     data (dataobj out) = data (spec_field (dataobj img)) \<and>
     (X \<noteq> 1 \<and> Y \<noteq> 1 \<and> Z \<noteq> 1 \<longrightarrow> shape (dataobj out) = shape (spec_field (dataobj img))) \<and>
     (\<forall>x<X. \<forall>y<Y. \<forall>z<Z. \<forall>c<C.
        data (dataobj out) ! (((x * Y + y) * Z + z) * C + c) =
        (if c < 2 then - 1 else 1) * data (dataobj img) ! ((((x * Y + y) * Z + z) * 1 + 0) * C + c)) \<and>
     (is_proxy img \<longrightarrow> img' = img) \<and>
     (\<not> is_proxy img \<longrightarrow>
        img' = img\<lparr>dataobj := (dataobj img)\<lparr>data := data (dataobj out)\<rparr>\<rparr>)"
proof -
  from assms have s: "shape (dataobj img) = [X, Y, Z, 1, C]"
    by (simp add: wf_image_def)
  with assms have l: "length (data (dataobj img)) = X * Y * Z * C"
    by (simp add: wf_image_def wf_ndarray_def mult.assoc)
  have idx: "((x * Y + y) * Z + z) * C + c < X * Y * Z * C"
    if "x < X" "y < Y" "z < Z" "c < C" for x y z c
    using that by (intro row_major_bound)
  have sp: "data (spec_field (dataobj img)) = flipped C (data (dataobj img))"
    "shape (spec_field (dataobj img)) = [X, Y, Z, C]"
    using s by (simp_all add: spec_field_def flipped_def)
  have el: "flipped C (data (dataobj img)) ! (((x * Y + y) * Z + z) * C + c) =
        (if c < 2 then - 1 else 1) * data (dataobj img) ! ((((x * Y + y) * Z + z) * 1 + 0) * C + c)"
    if "x < X" "y < Y" "z < Z" "c < C" for x y z c
    using idx [OF that] that(4) by (simp add: flipped_def l)
  show ?thesis
    unfolding from_image_conforming [OF assms(1-3)] sp
    using assms(4,5) el by (auto simp: new_image_def)
qed

theorem C4_from_image_field_witness:
  "wf_image \<lparr>header = \<lparr>data_shape = [2, 2, 2, 1, 2]\<rparr>,
             dataobj = \<lparr>shape = [2, 2, 2, 1, 2],
                        data = [1, 2, 3, 4, 5, 6, 7, 8, 9, 10, 11, 12, 13, 14, 15, 16],
                        dtype = Floating, writeable = True\<rparr>,
             is_proxy = False,
             affine = [[2, 0, 0, -10], [0, 2, 0, -20], [0, 0, 2, 5], [0, 0, 0, 1]],
             filename = None\<rparr> \<and>
  (\<exists>out img'. from_image \<lparr>header = \<lparr>data_shape = [2, 2, 2, 1, 2]\<rparr>,
             dataobj = \<lparr>shape = [2, 2, 2, 1, 2],
                        data = [1, 2, 3, 4, 5, 6, 7, 8, 9, 10, 11, 12, 13, 14, 15, 16],
                        dtype = Floating, writeable = True\<rparr>,
             is_proxy = False,
             affine = [[2, 0, 0, -10], [0, 2, 0, -20], [0, 0, 2, 5], [0, 0, 0, 1]],
             filename = None\<rparr> = Inr (out, img') \<and>
     affine out = [[2, 0, 0, -10], [0, 2, 0, -20], [0, 0, 2, 5], [0, 0, 0, 1]] \<and>
     shape (dataobj out) = [2, 2, 2, 2] \<and>
     data (dataobj out) = [-1, -2, -3, -4, -5, -6, -7, -8, -9, -10, -11, -12, -13, -14, -15, -16] \<and>
     data (dataobj img') = [-1, -2, -3, -4, -5, -6, -7, -8, -9, -10, -11, -12, -13, -14, -15, -16])"
proof -
  let ?img = "\<lparr>header = \<lparr>data_shape = [2, 2, 2, 1, 2]\<rparr>,
             dataobj = \<lparr>shape = [2, 2, 2, 1, 2],
                        data = [1, 2, 3, 4, 5, 6, 7, 8, 9, 10, 11, 12, 13, 14, 15, 16 :: real],
                        dtype = Floating, writeable = True\<rparr>,
             is_proxy = False,
             affine = [[2, 0, 0, -10], [0, 2, 0, -20], [0, 0, 2, 5], [0, 0, 0, 1]],
             filename = None\<rparr>"
  have wf: "wf_image ?img"
    by (simp add: wf_image_def wf_ndarray_def)
  have sp: "data (spec_field (dataobj ?img))
      = [-1, -2, -3, -4, -5, -6, -7, -8, -9, -10, -11, -12, -13, -14, -15, -16]"
    by (simp add: spec_field_def upt_rec)
  from C4_from_image_field [OF wf, of 2 2 2 2]
  obtain out img' where "from_image ?img = Inr (out, img')" "affine out = affine ?img"
    "shape (dataobj out) = filter (\<lambda>n. n \<noteq> 1) [2, 2, 2] @ [2]"
    "data (dataobj out) = data (spec_field (dataobj ?img))"
    "img' = ?img\<lparr>dataobj := (dataobj ?img)\<lparr>data := data (dataobj out)\<rparr>\<rparr>"
    by auto
  with wf sp show ?thesis
    by simp
qed

section \<open>Lines, blanks and fields\<close>

lemma splitlines_from_no_break:
  "l \<in> set (splitlines_from cur f s) \<Longrightarrow> \<forall>c\<in>set cur. \<not> is_linebreak c \<Longrightarrow>
   \<forall>c\<in>set l. \<not> is_linebreak c"
proof (induction s arbitrary: cur f)
  case Nil
  then show ?case by (simp split: if_splits)
next
  case (Cons c s)
  consider (skip) "f \<and> c = CHR 0x0A" | (brk) "\<not> (f \<and> c = CHR 0x0A)" "is_linebreak c"
    | (plain) "\<not> (f \<and> c = CHR 0x0A)" "\<not> is_linebreak c"
    by blast
  then show ?case
  proof cases
    case skip
    with Cons.prems have "l \<in> set (splitlines_from cur False s)" by simp
    then show ?thesis using Cons.prems(2) by (rule Cons.IH)
  next
    case brk
    with Cons.prems have "l = rev cur \<or> l \<in> set (splitlines_from [] (c = CHR 0x0D) s)"
      by simp
    then show ?thesis
    proof
      assume "l = rev cur" with Cons.prems(2) show ?thesis by simp
    next
      assume "l \<in> set (splitlines_from [] (c = CHR 0x0D) s)"
      then show ?thesis by (rule Cons.IH) simp
    qed
  next
    case plain
    with Cons.prems have "l \<in> set (splitlines_from (c # cur) False s)" by simp
    then show ?thesis by (rule Cons.IH) (use plain Cons.prems(2) in simp)
  qed
qed

lemma splitlines_no_break: "l \<in> set (splitlines s) \<Longrightarrow> c \<in> set l \<Longrightarrow> \<not> is_linebreak c"
  using splitlines_from_no_break [of l "[]" False s] by (simp add: splitlines_def)

lemma splitlines_from_plain:
  "\<forall>c\<in>set s. \<not> is_linebreak c \<Longrightarrow>
   splitlines_from cur f s = (if cur = [] \<and> s = [] then [] else [rev cur @ s])"
proof (induction s arbitrary: cur f)
  case Nil
  then show ?case by simp
next
  case (Cons c s)
  then have "c \<noteq> CHR 0x0A" by (auto simp: is_linebreak_def)
  with Cons show ?case by simp
qed

lemma splitlines_plain:
  "s \<noteq> [] \<Longrightarrow> \<forall>c\<in>set s. \<not> is_linebreak c \<Longrightarrow> splitlines s = [s]"
  by (simp add: splitlines_def splitlines_from_plain)

lemma strip_Nil [simp]: "strip [] = []"
  by (simp add: strip_def)

lemma lines_of_line:
  assumes "l \<in> set (lines_of s)"
  shows "lines_of l = [l]"
proof -
  from assms have l: "l \<in> set (splitlines s)" "strip l \<noteq> []"
    "\<not> (startswith l ''#'' \<or> sublist ''3dvolreg matrices'' l)"
    by (simp_all add: lines_of_def)
  from l(2) have "l \<noteq> []" by auto
  moreover from l(1) have "\<forall>c\<in>set l. \<not> is_linebreak c"
    by (blast dest: splitlines_no_break)
  ultimately have "splitlines l = [l]" by (rule splitlines_plain)
  with l show ?thesis by (simp add: lines_of_def)
qed

lemma from_string_first:
  "lines_of s = l # rest \<Longrightarrow> from_string float_of s = (case reshape 3 4 (genfromtxt float_of (encode l)) of
                 Inl e \<Rightarrow> Inl e
               | Inr rows \<Rightarrow> Inr \<lparr>parameters = vstack rows [0, 0, 0, 1]\<rparr>)"
  by (simp add: from_string_def)

lemma from_string_Nil:
  "lines_of s = [] \<Longrightarrow> from_string float_of s = Inl (TransformFileError [])"
  by (simp add: from_string_def)

lemma from_string_line:
  assumes "lines_of s = l # rest"
  shows "from_string float_of s = from_string float_of l"
proof -
  from assms have "l \<in> set (lines_of s)" by simp
  then have "lines_of l = [l]" by (rule lines_of_line)
  then show ?thesis using assms by (simp add: from_string_first)
qed

lemma reshape_3_4:
  "reshape 3 4 a = (if length a = 12 then Inr [take 4 a, take 4 (drop 4 a), take 4 (drop 8 a)] else Inl ValueError)"
  by (simp add: reshape_def upt_rec numeral_eq_Suc)

lemma from_string_TFE_iff:
  "(\<exists>m. from_string float_of s = Inl (TransformFileError m)) \<longleftrightarrow> lines_of s = []"
  by (cases "lines_of s") (auto simp: from_string_first from_string_Nil reshape_3_4 split: sum.splits)

lemma strip_eq_Nil_iff: "strip x = [] \<longleftrightarrow> (\<forall>c\<in>set x. is_space c)"
proof -
  have "strip x = [] \<longleftrightarrow> (\<forall>c\<in>set (dropWhile is_space x). is_space c)"
    unfolding strip_def by (simp only: rev_is_Nil_conv dropWhile_eq_Nil_conv set_rev)
  also have "\<dots> \<longleftrightarrow> dropWhile is_space x = []"
  proof
    assume a: "\<forall>c\<in>set (dropWhile is_space x). is_space c"
    show "dropWhile is_space x = []"
    proof (rule ccontr)
      assume n: "dropWhile is_space x \<noteq> []"
      then have "hd (dropWhile is_space x) \<in> set (dropWhile is_space x)"
        by (rule hd_in_set)
      with a hd_dropWhile [OF n] show False by blast
    qed
  next
    assume "dropWhile is_space x = []"
    then show "\<forall>c\<in>set (dropWhile is_space x). is_space c"
      by (simp only: list.set ball_empty)
  qed
  also have "\<dots> \<longleftrightarrow> (\<forall>c\<in>set x. is_space c)"
    by (simp add: dropWhile_eq_Nil_conv)
  finally show ?thesis .
qed

lemma set_strip: "set (strip x) \<subseteq> set x"
proof -
  have "set (strip x) \<subseteq> set (dropWhile is_space x)"
    unfolding strip_def using set_dropWhileD [of _ is_space "rev (dropWhile is_space x)"] by auto
  also have "\<dots> \<subseteq> set x"
    using set_dropWhileD [of _ is_space x] by auto
  finally show ?thesis .
qed

lemma strip_id: "y \<noteq> [] \<Longrightarrow> \<not> is_space (hd y) \<Longrightarrow> \<not> is_space (last y) \<Longrightarrow> strip y = y"
proof -
  assume y: "y \<noteq> []" "\<not> is_space (hd y)" "\<not> is_space (last y)"
  then have "dropWhile is_space y = y" by (cases y) auto
  moreover from y have "dropWhile is_space (rev y) = rev y" 
    by (cases "rev y") (auto simp: last_rev hd_rev)
  ultimately show ?thesis by (simp add: strip_def)
qed

lemma strip_ends:
  assumes "strip x \<noteq> []"
  shows "\<not> is_space (hd (strip x))" and "\<not> is_space (last (strip x))"
proof -
  let ?z = "dropWhile is_space x"
  from assms have d: "dropWhile is_space (rev ?z) \<noteq> []" by (simp add: strip_def)
  then have z: "?z \<noteq> []" by (metis dropWhile.simps(1) rev.simps(1))
  from hd_dropWhile [OF d] show "\<not> is_space (last (strip x))"
    by (simp add: strip_def last_rev)
  obtain us where us: "rev ?z = us @ dropWhile is_space (rev ?z)"
    by (metis takeWhile_dropWhile_id)
  have "hd (strip x) = last (dropWhile is_space (rev ?z))"
    by (simp add: strip_def hd_rev)
  also have "\<dots> = last (rev ?z)"
    using d us by (metis last_appendR)
  also have "\<dots> = hd ?z" by (simp add: last_rev)
  finally show "\<not> is_space (hd (strip x))" using hd_dropWhile [OF z] by simp
qed

lemma strip_strip: "strip (strip x) = strip x"
proof (cases "strip x = []")
  case True then show ?thesis by simp
next
  case False then show ?thesis by (intro strip_id strip_ends)
qed

lemma is_linebreak_space: "is_linebreak c \<Longrightarrow> is_space c"
  by (auto simp: is_linebreak_def is_space_def)

lemma array_lines_of_line:
  assumes "l \<in> set (array_lines_of s)"
  shows "strip l = l" and "l \<noteq> []" and "splitlines l = [l]"
proof -
  from assms obtain x where x: "x \<in> set (splitlines s)" "strip x \<noteq> []" "l = strip x"
    by (auto simp: array_lines_of_def)
  show "strip l = l" by (simp add: x strip_strip)
  show "l \<noteq> []" by (simp add: x)
  have "\<forall>c\<in>set l. \<not> is_linebreak c"
    using x(1,3) set_strip [of x] splitlines_no_break by blast
  with \<open>l \<noteq> []\<close> show "splitlines l = [l]" by (rule splitlines_plain)
qed

lemma array_line_skipped:
  assumes "l \<in> set (array_lines_of s)"
  shows "lines_of l = [] \<longleftrightarrow> startswith l ''#'' \<or> sublist ''3dvolreg matrices'' l"
  using array_lines_of_line [OF assms] by (simp add: lines_of_def)

lemma collect_Inl_iff:
  "collect rs = Inl e \<longleftrightarrow> (\<exists>pre post. rs = pre @ Inl e # post \<and> (\<forall>r\<in>set pre. \<exists>x. r = Inr x))"
proof (induction rs)
  case Nil
  then show ?case by simp
next
  case (Cons r rs)
  show ?case
  proof (cases r)
    case (Inl e')
    show ?thesis
    proof
      assume "collect (r # rs) = Inl e"
      with Inl have "r # rs = [] @ Inl e # rs" by simp
      then show "\<exists>pre post. r # rs = pre @ Inl e # post \<and> (\<forall>r\<in>set pre. \<exists>x. r = Inr x)"
        by (metis empty_iff list.set(1))
    next
      assume "\<exists>pre post. r # rs = pre @ Inl e # post \<and> (\<forall>r\<in>set pre. \<exists>x. r = Inr x)"
      then obtain pre post where p: "r # rs = pre @ Inl e # post" "\<forall>r\<in>set pre. \<exists>x. r = Inr x"
        by blast
      with Inl have "pre = []" by (cases pre) auto
      with p Inl show "collect (r # rs) = Inl e" by simp
    qed
  next
    case (Inr x)
    have "collect (r # rs) = Inl e \<longleftrightarrow> collect rs = Inl e"
      using Inr by (simp split: sum.splits)
    also have "\<dots> \<longleftrightarrow> (\<exists>pre post. rs = pre @ Inl e # post \<and> (\<forall>r\<in>set pre. \<exists>x. r = Inr x))"
      by (rule Cons.IH)
    also have "\<dots> \<longleftrightarrow> (\<exists>pre post. r # rs = pre @ Inl e # post \<and> (\<forall>r\<in>set pre. \<exists>x. r = Inr x))"
    proof
      assume "\<exists>pre post. rs = pre @ Inl e # post \<and> (\<forall>r\<in>set pre. \<exists>x. r = Inr x)"
      then obtain pre post where "rs = pre @ Inl e # post" "\<forall>r\<in>set pre. \<exists>x. r = Inr x" by blast
      then have "r # rs = (r # pre) @ Inl e # post \<and> (\<forall>r\<in>set (r # pre). \<exists>x. r = Inr x)"
        using Inr by simp
      then show "\<exists>pre post. r # rs = pre @ Inl e # post \<and> (\<forall>r\<in>set pre. \<exists>x. r = Inr x)" by blast
    next
      assume "\<exists>pre post. r # rs = pre @ Inl e # post \<and> (\<forall>r\<in>set pre. \<exists>x. r = Inr x)"
      then obtain pre post where p: "r # rs = pre @ Inl e # post" "\<forall>r\<in>set pre. \<exists>x. r = Inr x" by blast
      with Inr obtain pre' where "pre = r # pre'" by (cases pre) auto
      with p have "rs = pre' @ Inl e # post \<and> (\<forall>r\<in>set pre'. \<exists>x. r = Inr x)" by simp
      then show "\<exists>pre post. rs = pre @ Inl e # post \<and> (\<forall>r\<in>set pre. \<exists>x. r = Inr x)" by blast
    qed
    finally show ?thesis .
  qed
qed

lemma split_from_spaces:
  "\<forall>c\<in>set v. is_space c \<Longrightarrow> split_from cur v = (if cur = [] then [] else [rev cur])"
  by (induction v arbitrary: cur) auto

lemma split_from_append_spaces:
  "\<forall>c\<in>set v. is_space c \<Longrightarrow> split_from cur (u @ v) = split_from cur u"
  by (induction u arbitrary: cur) (auto simp: split_from_spaces)

lemma split_from_dropWhile:
  "(\<And>c. P c \<Longrightarrow> is_space c) \<Longrightarrow> split_from [] (dropWhile P x) = split_from [] x"
  by (induction x) auto

lemma split_ws_strip_chars:
  assumes "\<And>c. c \<in> set chars \<Longrightarrow> is_space c"
  shows "split_ws (strip_chars chars x) = split_ws x"
proof -
  let ?P = "\<lambda>c. c \<in> set chars"
  let ?z = "dropWhile ?P x"
  have "?z = rev (dropWhile ?P (rev ?z)) @ rev (takeWhile ?P (rev ?z))"
    by (metis rev_append rev_rev_ident takeWhile_dropWhile_id)
  moreover have "\<forall>c\<in>set (rev (takeWhile ?P (rev ?z))). is_space c"
    using assms by (auto dest: set_takeWhileD)
  ultimately have "split_from [] ?z = split_from [] (rev (dropWhile ?P (rev ?z)))"
    by (metis split_from_append_spaces)
  moreover have "split_from [] ?z = split_from [] x"
    using assms by (rule split_from_dropWhile)
  ultimately show ?thesis by (simp add: split_ws_def strip_chars_def)
qed

lemma genfromtxt_fields:
  "genfromtxt float_of line = map float_of (split_ws (takeWhile (\<lambda>c. c \<noteq> CHR ''#'') line))"
proof -
  let ?x = "takeWhile (\<lambda>c. c \<noteq> CHR ''#'') line"
  let ?cs = "[CHR '' '', CHR 0x0D, CHR 0x0A]"
  have eq: "split_ws (strip_chars ?cs ?x) = split_ws ?x"
    by (rule split_ws_strip_chars) (auto simp: is_space_def)
  show ?thesis
  proof (cases "strip_chars ?cs ?x = []")
    case True
    with eq have "split_ws ?x = []" by (simp add: split_ws_def)
    with True show ?thesis by (simp add: genfromtxt_def)
  next
    case False
    with eq show ?thesis by (simp add: genfromtxt_def Let_def)
  qed
qed

text \<open>Unfolding the text functions on a given string, in stages.\<close>

lemmas lines_eval =
  splitlines_def is_linebreak_def is_space_def strip_def startswith_def lines_of_def
  array_lines_of_def sublist_code

lemmas fields_eval = split_ws_def is_space_def encode_def

lemmas float_eval =
  py_float_def float_str_def split_sign_def lower_def mantissa_def exponent_def digitpart_def
  is_e_def is_digit_def digit_val_def nat_of_digits_def pow10_def

lemma from_string_fields:
  assumes "lines_of s = l # rest"
    and "split_ws (takeWhile (\<lambda>c. c \<noteq> CHR ''#'') (encode l))
           = [t0, t1, t2, t3, t4, t5, t6, t7, t8, t9, t10, t11]"
  shows "from_string float_of s =
     Inr \<lparr>parameters = [[float_of t0, float_of t1, float_of t2, float_of t3],
                          [float_of t4, float_of t5, float_of t6, float_of t7],
                          [float_of t8, float_of t9, float_of t10, float_of t11],
                          [0, 0, 0, 1]]\<rparr>"
  using assms by (simp add: from_string_first genfromtxt_fields reshape_3_4 vstack_def)

lemma from_string_few_fields:
  assumes "lines_of s = l # rest"
    and "length (split_ws (takeWhile (\<lambda>c. c \<noteq> CHR ''#'') (encode l))) \<noteq> 12"
  shows "from_string float_of s = Inl ValueError"
  using assms by (simp add: from_string_first genfromtxt_fields reshape_3_4)

text \<open>The line of the identity transform.\<close>

lemma lines_of_identity_line:
  "lines_of ''1 0 0 0 0 1 0 0 0 0 1 0'' = [''1 0 0 0 0 1 0 0 0 0 1 0'']"
  by (simp add: lines_eval)

lemma fields_of_identity_line:
  "split_ws (takeWhile (\<lambda>c. c \<noteq> CHR ''#'') (encode ''1 0 0 0 0 1 0 0 0 0 1 0''))
     = [''1'', ''0'', ''0'', ''0'', ''0'', ''1'', ''0'', ''0'', ''0'', ''0'', ''1'', ''0'']"
  by (simp add: fields_eval)

lemma from_string_identity_line:
  "\<exists>t. from_string float_of ''1 0 0 0 0 1 0 0 0 0 1 0'' = Inr t"
  using from_string_fields [OF lines_of_identity_line fields_of_identity_line] by blast

section \<open>Parsing a transform file\<close>

text \<open>
  Claim C5, as it stands, fails for \<^verbatim>\<open>AFNILinearTransformArray.from_string\<close> on a
  text with a line of data followed by the line \<^verbatim>\<open>3dvolreg matrices\<close>: the array
  parser skips only blank lines and lines that start with \<^verbatim>\<open>#\<close>, hands the second
  line to the parser of single transforms, and that one finds no line of data in it and
  raises \<^verbatim>\<open>TransformFileError\<close>, although a line of data remains in the text.
\<close>

theorem C5_array_raises_with_data_line:
  "lines_of (''1 0 0 0 0 1 0 0 0 0 1 0'' @ [CHR 0x0A] @ ''3dvolreg matrices'')
     = [''1 0 0 0 0 1 0 0 0 0 1 0''] \<and>
   (\<exists>t. from_string py_float ''1 0 0 0 0 1 0 0 0 0 1 0'' = Inr t) \<and>
   array_lines_of (''1 0 0 0 0 1 0 0 0 0 1 0'' @ [CHR 0x0A] @ ''3dvolreg matrices'')
     = [''1 0 0 0 0 1 0 0 0 0 1 0'', ''3dvolreg matrices''] \<and>
   array_from_string py_float (''1 0 0 0 0 1 0 0 0 0 1 0'' @ [CHR 0x0A] @ ''3dvolreg matrices'')
     = Inl (TransformFileError [])"
proof -
  let ?text = "''1 0 0 0 0 1 0 0 0 0 1 0'' @ [CHR 0x0A] @ ''3dvolreg matrices''"
  have single: "lines_of ?text = [''1 0 0 0 0 1 0 0 0 0 1 0'']"
    by (simp add: lines_eval)
  have array: "array_lines_of ?text = [''1 0 0 0 0 1 0 0 0 0 1 0'', ''3dvolreg matrices'']"
    by (simp add: lines_eval)
  obtain t where first: "from_string py_float ''1 0 0 0 0 1 0 0 0 0 1 0'' = Inr t"
    using from_string_identity_line by blast
  have "lines_of ''3dvolreg matrices'' = []"
    by (simp add: lines_eval)
  then have second: "from_string py_float ''3dvolreg matrices'' = Inl (TransformFileError [])"
    by (rule from_string_Nil)
  have "array_from_string py_float ?text = Inl (TransformFileError [])"
    unfolding array_from_string_def Let_def array by (simp add: first second)
  with single array first show ?thesis
    by blast
qed

text \<open>
  Claim C5, amended: \<^verbatim>\<open>AFNILinearTransform.from_string\<close> skips blank lines, lines
  that start with \<^verbatim>\<open>#\<close> and lines that contain \<^verbatim>\<open>3dvolreg matrices\<close>, and
  raises \<^verbatim>\<open>TransformFileError\<close> if and only if no line remains.
  \<^verbatim>\<open>AFNILinearTransformArray.from_string\<close> skips blank lines and lines that start
  with \<^verbatim>\<open>#\<close>; it raises \<^verbatim>\<open>TransformFileError\<close> if no line remains, and otherwise
  if and only if the first of the remaining lines (stripped) that the parser of single
  transforms rejects is one that starts with \<^verbatim>\<open>#\<close> or contains
  \<^verbatim>\<open>3dvolreg matrices\<close>.
\<close>

theorem C5_from_string_format_error:
  "((\<exists>m. from_string float_of s = Inl (TransformFileError m)) \<longleftrightarrow> lines_of s = []) \<and>
   (array_lines_of s = [] \<longrightarrow>
      array_from_string float_of s = Inl (TransformFileError ''Input string is empty.'')) \<and>
   ((\<exists>m. array_from_string float_of s = Inl (TransformFileError m)) \<longleftrightarrow>
      array_lines_of s = [] \<or>
      (\<exists>pre l post. array_lines_of s = pre @ l # post \<and>
         (\<forall>x\<in>set pre. \<exists>t. from_string float_of x = Inr t) \<and>
         (startswith l ''#'' \<or> sublist ''3dvolreg matrices'' l)))"
proof (intro conjI impI)
  show "(\<exists>m. from_string float_of s = Inl (TransformFileError m)) \<longleftrightarrow> lines_of s = []"
    by (rule from_string_TFE_iff)
  show "array_from_string float_of s = Inl (TransformFileError ''Input string is empty.'')"
    if "array_lines_of s = []"
    using that by (simp add: array_from_string_def)
  show "(\<exists>m. array_from_string float_of s = Inl (TransformFileError m)) \<longleftrightarrow>
      array_lines_of s = [] \<or>
      (\<exists>pre l post. array_lines_of s = pre @ l # post \<and>
         (\<forall>x\<in>set pre. \<exists>t. from_string float_of x = Inr t) \<and>
         (startswith l ''#'' \<or> sublist ''3dvolreg matrices'' l))"
  proof (cases "array_lines_of s = []")
    case True
    then show ?thesis by (simp add: array_from_string_def)
  next
    case False
    let ?rs = "map (from_string float_of) (array_lines_of s)"
    have "(\<exists>m. array_from_string float_of s = Inl (TransformFileError m)) \<longleftrightarrow>
          (\<exists>m. collect ?rs = Inl (TransformFileError m))"
      using False by (auto simp: array_from_string_def split: sum.splits)
    also have "\<dots> \<longleftrightarrow> (\<exists>m pre post. ?rs = pre @ Inl (TransformFileError m) # post \<and>
          (\<forall>r\<in>set pre. \<exists>x. r = Inr x))"
      by (simp only: collect_Inl_iff)
    also have "\<dots> \<longleftrightarrow> (\<exists>pre l post. array_lines_of s = pre @ l # post \<and>
         (\<forall>x\<in>set pre. \<exists>t. from_string float_of x = Inr t) \<and>
         (startswith l ''#'' \<or> sublist ''3dvolreg matrices'' l))"
      (is "?L \<longleftrightarrow> ?R")
    proof
      assume ?L
      then obtain m pre post where rs: "?rs = pre @ Inl (TransformFileError m) # post"
        and pre: "\<forall>r\<in>set pre. \<exists>x. r = Inr x"
        by blast
      from rs obtain ls l ps where ls: "array_lines_of s = ls @ l # ps"
        "pre = map (from_string float_of) ls" "from_string float_of l = Inl (TransformFileError m)"
        by (auto simp: map_eq_append_conv map_eq_Cons_conv)
      from ls(1) have "l \<in> set (array_lines_of s)" by simp
      moreover from ls(3) have "lines_of l = []" using from_string_TFE_iff by blast
      ultimately have "startswith l ''#'' \<or> sublist ''3dvolreg matrices'' l"
        by (simp add: array_line_skipped)
      moreover from pre ls(2) have "\<forall>x\<in>set ls. \<exists>t. from_string float_of x = Inr t"
        by simp
      ultimately show ?R using ls(1) by blast
    next
      assume ?R
      then obtain pre l post where ls: "array_lines_of s = pre @ l # post"
        "\<forall>x\<in>set pre. \<exists>t. from_string float_of x = Inr t"
        "startswith l ''#'' \<or> sublist ''3dvolreg matrices'' l"
        by blast
      from ls(1) have "l \<in> set (array_lines_of s)" by simp
      with ls(3) have "lines_of l = []" by (simp add: array_line_skipped)
      then have "from_string float_of l = Inl (TransformFileError [])"
        by (rule from_string_Nil)
      with ls(1) have "?rs = map (from_string float_of) pre @ Inl (TransformFileError []) #
          map (from_string float_of) post"
        by simp
      moreover have "\<forall>r\<in>set (map (from_string float_of) pre). \<exists>x. r = Inr x"
        using ls(2) by auto
      ultimately show ?L by blast
    qed
    finally show ?thesis using False by simp
  qed
qed

theorem C5_from_string_format_error_witness:
  "lines_of (''# 3dvolreg matrices'' @ [CHR 0x0A, CHR 0x0A]) = [] \<and>
   (\<exists>m. from_string py_float (''# 3dvolreg matrices'' @ [CHR 0x0A, CHR 0x0A])
        = Inl (TransformFileError m)) \<and>
   array_lines_of (''# 3dvolreg matrices'' @ [CHR 0x0A, CHR 0x0A]) = [] \<and>
   array_from_string py_float (''# 3dvolreg matrices'' @ [CHR 0x0A, CHR 0x0A])
     = Inl (TransformFileError ''Input string is empty.'') \<and>
   array_lines_of (''1 0 0 0 0 1 0 0 0 0 1 0'' @ [CHR 0x0A] @ '' # end'')
     = [''1 0 0 0 0 1 0 0 0 0 1 0'', ''# end''] \<and>
   (\<exists>t. from_string py_float ''1 0 0 0 0 1 0 0 0 0 1 0'' = Inr t) \<and>
   (\<exists>m. array_from_string py_float (''1 0 0 0 0 1 0 0 0 0 1 0'' @ [CHR 0x0A] @ '' # end'')
        = Inl (TransformFileError m))"
proof -
  let ?none = "''# 3dvolreg matrices'' @ [CHR 0x0A, CHR 0x0A]"
  let ?text = "''1 0 0 0 0 1 0 0 0 0 1 0'' @ [CHR 0x0A] @ '' # end''"
  have none: "lines_of ?none = []" "array_lines_of ?none = []"
    by (simp_all add: lines_eval)
  have array: "array_lines_of ?text = [] @ ''1 0 0 0 0 1 0 0 0 0 1 0'' # [''# end'']"
    "array_lines_of ?text = [''1 0 0 0 0 1 0 0 0 0 1 0''] @ ''# end'' # []"
    by (simp_all add: lines_eval)
  have first: "\<exists>t. from_string py_float ''1 0 0 0 0 1 0 0 0 0 1 0'' = Inr t"
    by (rule from_string_identity_line)
  have comment: "startswith ''# end'' ''#''"
    by (simp add: startswith_def)
  have "\<exists>pre l post. array_lines_of ?text = pre @ l # post \<and>
         (\<forall>x\<in>set pre. \<exists>t. from_string py_float x = Inr t) \<and>
         (startswith l ''#'' \<or> sublist ''3dvolreg matrices'' l)"
  proof (intro exI conjI)
    show "array_lines_of ?text = [''1 0 0 0 0 1 0 0 0 0 1 0''] @ ''# end'' # []"
      by (rule array(2))
    show "\<forall>x\<in>set [''1 0 0 0 0 1 0 0 0 0 1 0'']. \<exists>t. from_string py_float x = Inr t"
      using first by simp
    show "startswith ''# end'' ''#'' \<or> sublist ''3dvolreg matrices'' ''# end''"
      using comment by simp
  qed
  with C5_from_string_format_error [of py_float ?text]
  have "\<exists>m. array_from_string py_float ?text = Inl (TransformFileError m)"
    by blast
  moreover from C5_from_string_format_error [of py_float ?none] none
  have "(\<exists>m. from_string py_float ?none = Inl (TransformFileError m)) \<and>
    array_from_string py_float ?none = Inl (TransformFileError ''Input string is empty.'')"
    by blast
  ultimately show ?thesis
    using none array(1) first by simp
qed

text \<open>
  Claim C6, as it stands, fails on its last part: a line that is kept and does not
  parse into twelve numbers is not always rejected. Only the first line kept is parsed,
  so that a second line with three fields goes unnoticed; and genfromtxt turns a field
  that is no number into \<^verbatim>\<open>nan\<close>, so that a line of twelve words is accepted.
\<close>

theorem C6_malformed_lines_accepted:
  "lines_of (''1 0 0 0 0 1 0 0 0 0 1 0'' @ [CHR 0x0A] @ ''13 14 15'')
     = [''1 0 0 0 0 1 0 0 0 0 1 0'', ''13 14 15''] \<and>
   split_ws (takeWhile (\<lambda>c. c \<noteq> CHR ''#'') (encode ''13 14 15'')) = [''13'', ''14'', ''15''] \<and>
   from_string py_float (''1 0 0 0 0 1 0 0 0 0 1 0'' @ [CHR 0x0A] @ ''13 14 15'')
     = Inr \<lparr>parameters = [[Finite 1, Finite 0, Finite 0, Finite 0],
                           [Finite 0, Finite 1, Finite 0, Finite 0],
                           [Finite 0, Finite 0, Finite 1, Finite 0],
                           [0, 0, 0, 1]]\<rparr> \<and>
   lines_of ''x x x x x x x x x x x x'' = [''x x x x x x x x x x x x''] \<and>
   from_string py_float ''x x x x x x x x x x x x''
     = Inr \<lparr>parameters = [[NaN, NaN, NaN, NaN], [NaN, NaN, NaN, NaN], [NaN, NaN, NaN, NaN],
                           [0, 0, 0, 1]]\<rparr>"
proof -
  let ?text = "''1 0 0 0 0 1 0 0 0 0 1 0'' @ [CHR 0x0A] @ ''13 14 15''"
  have l: "lines_of ?text = ''1 0 0 0 0 1 0 0 0 0 1 0'' # [''13 14 15'']"
    by (simp add: lines_eval)
  have t: "split_ws (takeWhile (\<lambda>c. c \<noteq> CHR ''#'') (encode ''13 14 15'')) = [''13'', ''14'', ''15'']"
    by (simp add: fields_eval)
  have f: "py_float ''1'' = Finite 1" "py_float ''0'' = Finite 0" "py_float ''x'' = NaN"
    by (simp_all add: float_eval)
  have ok: "from_string py_float ?text
     = Inr \<lparr>parameters = [[Finite 1, Finite 0, Finite 0, Finite 0],
                           [Finite 0, Finite 1, Finite 0, Finite 0],
                           [Finite 0, Finite 0, Finite 1, Finite 0],
                           [0, 0, 0, 1]]\<rparr>"
    using from_string_fields [OF l fields_of_identity_line, of py_float] by (simp add: f)
  have lx: "lines_of ''x x x x x x x x x x x x'' = [''x x x x x x x x x x x x'']"
    by (simp add: lines_eval)
  have tx: "split_ws (takeWhile (\<lambda>c. c \<noteq> CHR ''#'') (encode ''x x x x x x x x x x x x''))
     = [''x'', ''x'', ''x'', ''x'', ''x'', ''x'', ''x'', ''x'', ''x'', ''x'', ''x'', ''x'']"
    by (simp add: fields_eval)
  have okx: "from_string py_float ''x x x x x x x x x x x x''
     = Inr \<lparr>parameters = [[NaN, NaN, NaN, NaN], [NaN, NaN, NaN, NaN], [NaN, NaN, NaN, NaN],
                           [0, 0, 0, 1]]\<rparr>"
    using from_string_fields [OF lx tx, of py_float] by (simp add: f)
  from l t ok lx okx show ?thesis
    by simp
qed

text \<open>
  Claim C6, amended: for every string that \<^verbatim>\<open>AFNILinearTransform.from_string\<close>
  accepts, the stored parameters are a \<open>4 \<times> 4\<close> matrix whose first three rows are the
  twelve numbers of the first line kept, row by row, and whose fourth row is
  \<open>[0, 0, 0, 1]\<close>. The numbers are the fields of that line separated by white space, up
  to a \<^verbatim>\<open>#\<close> if there is one, each converted by \<open>float_of\<close> (Python's
  \<^verbatim>\<open>float\<close>, and \<^verbatim>\<open>nan\<close> for a field that is no number). A string is accepted
  if and only if a line is kept and the first line kept has exactly twelve fields; a
  first line kept with another number of fields is rejected with \<^verbatim>\<open>ValueError\<close>.
  The lines kept after the first are not parsed.
\<close>

theorem C6_from_string_parameters:
  "(from_string float_of s = Inr tf \<longrightarrow>
      (\<exists>l rest x. lines_of s = l # rest \<and>
         x = map float_of (split_ws (takeWhile (\<lambda>c. c \<noteq> CHR ''#'') (encode l))) \<and>
         length x = 12 \<and>
         parameters tf = [[x ! 0, x ! 1, x ! 2, x ! 3], [x ! 4, x ! 5, x ! 6, x ! 7],
                          [x ! 8, x ! 9, x ! 10, x ! 11], [0, 0, 0, 1]])) \<and>
   (lines_of s = l # rest \<and>
      length (split_ws (takeWhile (\<lambda>c. c \<noteq> CHR ''#'') (encode l))) \<noteq> 12 \<longrightarrow>
      from_string float_of s = Inl ValueError) \<and>
   ((\<exists>tf. from_string float_of s = Inr tf) \<longleftrightarrow>
      (\<exists>l rest. lines_of s = l # rest \<and>
         length (split_ws (takeWhile (\<lambda>c. c \<noteq> CHR ''#'') (encode l))) = 12))"
proof (intro conjI impI)
  assume ok: "from_string float_of s = Inr tf"
  then obtain l rest where l: "lines_of s = l # rest"
    by (cases "lines_of s") (auto simp: from_string_Nil)
  define x where "x = map float_of (split_ws (takeWhile (\<lambda>c. c \<noteq> CHR ''#'') (encode l)))"
  from ok l have len: "length x = 12" and tf: "parameters tf = [take 4 x, take 4 (drop 4 x), take 4 (drop 8 x), [0, 0, 0, 1]]"
    by (auto simp: from_string_first genfromtxt_fields reshape_3_4 x_def vstack_def split: if_splits)
  from len obtain x0 x1 x2 x3 x4 x5 x6 x7 x8 x9 x10 x11 where
    "x = [x0, x1, x2, x3, x4, x5, x6, x7, x8, x9, x10, x11]"
    by (auto simp: length_Suc_conv numeral_eq_Suc)
  with tf have "parameters tf = [[x ! 0, x ! 1, x ! 2, x ! 3], [x ! 4, x ! 5, x ! 6, x ! 7],
                          [x ! 8, x ! 9, x ! 10, x ! 11], [0, 0, 0, 1]]"
    by simp
  with l len show "\<exists>l rest x. lines_of s = l # rest \<and>
         x = map float_of (split_ws (takeWhile (\<lambda>c. c \<noteq> CHR ''#'') (encode l))) \<and>
         length x = 12 \<and>
         parameters tf = [[x ! 0, x ! 1, x ! 2, x ! 3], [x ! 4, x ! 5, x ! 6, x ! 7],
                          [x ! 8, x ! 9, x ! 10, x ! 11], [0, 0, 0, 1]]"
    unfolding x_def by blast
next
  assume "lines_of s = l # rest \<and>
      length (split_ws (takeWhile (\<lambda>c. c \<noteq> CHR ''#'') (encode l))) \<noteq> 12"
  then show "from_string float_of s = Inl ValueError"
    by (simp add: from_string_first genfromtxt_fields reshape_3_4)
next
  show "(\<exists>tf. from_string float_of s = Inr tf) \<longleftrightarrow>
      (\<exists>l rest. lines_of s = l # rest \<and>
         length (split_ws (takeWhile (\<lambda>c. c \<noteq> CHR ''#'') (encode l))) = 12)"
  proof (cases "lines_of s")
    case Nil
    then show ?thesis
      by (simp add: from_string_Nil)
  next
    case (Cons l rest)
    then show ?thesis
      by (simp add: from_string_first genfromtxt_fields reshape_3_4)
  qed
qed

theorem C6_from_string_parameters_witness:
  "from_string py_float
     (''# 3dvolreg matrices (DICOM-to-DICOM, row-by-row):'' @ [CHR 0x0A] @
      ''1 0 0 2.5'' @ [CHR 0x09] @ ''0 1 0 -3  0 0 1 4e1 # first'' @ [CHR 0x0A])
    = Inr \<lparr>parameters = [[Finite 1, Finite 0, Finite 0, Finite (5 / 2)],
                          [Finite 0, Finite 1, Finite 0, Finite (- 3)],
                          [Finite 0, Finite 0, Finite 1, Finite 40],
                          [0, 0, 0, 1]]\<rparr> \<and>
   (\<exists>l rest x.
      lines_of (''# 3dvolreg matrices (DICOM-to-DICOM, row-by-row):'' @ [CHR 0x0A] @
         ''1 0 0 2.5'' @ [CHR 0x09] @ ''0 1 0 -3  0 0 1 4e1 # first'' @ [CHR 0x0A]) = l # rest \<and>
      x = map py_float (split_ws (takeWhile (\<lambda>c. c \<noteq> CHR ''#'') (encode l))) \<and>
      length x = 12) \<and>
   lines_of (''1 2 3'' @ [CHR 0x0A] @ ''4 5 6'') = [''1 2 3'', ''4 5 6''] \<and>
   length (split_ws (takeWhile (\<lambda>c. c \<noteq> CHR ''#'') (encode ''1 2 3''))) = 3 \<and>
   from_string py_float (''1 2 3'' @ [CHR 0x0A] @ ''4 5 6'') = Inl ValueError"
proof -
  let ?text = "''# 3dvolreg matrices (DICOM-to-DICOM, row-by-row):'' @ [CHR 0x0A] @
      ''1 0 0 2.5'' @ [CHR 0x09] @ ''0 1 0 -3  0 0 1 4e1 # first'' @ [CHR 0x0A]"
  let ?line = "''1 0 0 2.5'' @ [CHR 0x09] @ ''0 1 0 -3  0 0 1 4e1 # first''"
  let ?tf = "\<lparr>parameters = [[Finite 1, Finite 0, Finite 0, Finite (5 / 2)],
                          [Finite 0, Finite 1, Finite 0, Finite (- 3)],
                          [Finite 0, Finite 0, Finite 1, Finite 40],
                          [0 :: f8, 0, 0, 1]]\<rparr>"
  have l: "lines_of ?text = [?line]"
    by (simp add: lines_eval)
  have t: "split_ws (takeWhile (\<lambda>c. c \<noteq> CHR ''#'') (encode ?line))
      = [''1'', ''0'', ''0'', ''2.5'', ''0'', ''1'', ''0'', ''-3'', ''0'', ''0'', ''1'', ''4e1'']"
    by (simp add: fields_eval)
  have f: "py_float ''1'' = Finite 1" "py_float ''0'' = Finite 0" "py_float ''2.5'' = Finite (5 / 2)"
    "py_float ''-3'' = Finite (- 3)" "py_float ''4e1'' = Finite 40"
    by (simp_all add: float_eval)
  have ok: "from_string py_float ?text = Inr ?tf"
    using from_string_fields [OF l t, of py_float] by (simp add: f zero_f8_def one_f8_def)
  have l2: "lines_of (''1 2 3'' @ [CHR 0x0A] @ ''4 5 6'') = ''1 2 3'' # [''4 5 6'']"
    by (simp add: lines_eval)
  have t2: "length (split_ws (takeWhile (\<lambda>c. c \<noteq> CHR ''#'') (encode ''1 2 3''))) = 3"
    by (simp add: fields_eval)
  from C6_from_string_parameters [of py_float ?text ?tf] ok
  have "\<exists>l rest x. lines_of ?text = l # rest \<and>
      x = map py_float (split_ws (takeWhile (\<lambda>c. c \<noteq> CHR ''#'') (encode l))) \<and>
      length x = 12"
    by blast
  moreover from C6_from_string_parameters
    [of py_float "''1 2 3'' @ [CHR 0x0A] @ ''4 5 6''" _ "''1 2 3''" "[''4 5 6'']"] l2 t2
  have "from_string py_float (''1 2 3'' @ [CHR 0x0A] @ ''4 5 6'') = Inl ValueError"
    by simp
  ultimately show ?thesis
    using ok l2 t2 by simp
qed

text \<open>
  Claim C10: when the lines that \<^verbatim>\<open>AFNILinearTransform.from_string\<close> keeps are
  more than one, the result is that of parsing the first of them alone: the others raise
  no error and do not change the parameters. A line that contains
  \<^verbatim>\<open>3dvolreg matrices\<close> is not kept by this parser, also when it does not start with
  \<^verbatim>\<open>#\<close>, whereas \<^verbatim>\<open>AFNILinearTransformArray.from_string\<close> keeps every line
  that is not blank and does not start with \<^verbatim>\<open>#\<close>.
\<close>

theorem C10_first_data_line_only:
  "(lines_of s = l # rest \<longrightarrow>
      from_string float_of s = from_string float_of l \<and>
      (\<forall>s2 rest2. lines_of s2 = l # rest2 \<longrightarrow> from_string float_of s2 = from_string float_of s)) \<and>
   (sublist ''3dvolreg matrices'' b \<longrightarrow> b \<notin> set (lines_of s)) \<and>
   (b \<in> set (splitlines s) \<and> strip b \<noteq> [] \<and> \<not> startswith b ''#'' \<longrightarrow>
      strip b \<in> set (array_lines_of s))"
proof (intro conjI impI allI)
  assume l: "lines_of s = l # rest"
  then show "from_string float_of s = from_string float_of l"
    by (rule from_string_line)
  fix s2 rest2 assume "lines_of s2 = l # rest2"
  then show "from_string float_of s2 = from_string float_of s"
    using l by (simp add: from_string_first)
next
  assume "sublist ''3dvolreg matrices'' b"
  then show "b \<notin> set (lines_of s)" by (simp add: lines_of_def)
next
  assume "b \<in> set (splitlines s) \<and> strip b \<noteq> [] \<and> \<not> startswith b ''#''"
  then show "strip b \<in> set (array_lines_of s)"
    by (simp add: array_lines_of_def)
qed

theorem C10_first_data_line_only_witness:
  "lines_of (''3dvolreg matrices (DICOM-to-DICOM, row-by-row):'' @ [CHR 0x0A] @
      ''1 0 0 0 0 1 0 0 0 0 1 0'' @ [CHR 0x0A] @ ''13 14 15'')
     = [''1 0 0 0 0 1 0 0 0 0 1 0'', ''13 14 15''] \<and>
   from_string py_float (''3dvolreg matrices (DICOM-to-DICOM, row-by-row):'' @ [CHR 0x0A] @
      ''1 0 0 0 0 1 0 0 0 0 1 0'' @ [CHR 0x0A] @ ''13 14 15'')
     = from_string py_float ''1 0 0 0 0 1 0 0 0 0 1 0'' \<and>
   sublist ''3dvolreg matrices'' ''3dvolreg matrices (DICOM-to-DICOM, row-by-row):'' \<and>
   ''3dvolreg matrices (DICOM-to-DICOM, row-by-row):'' \<notin>
     set (lines_of (''3dvolreg matrices (DICOM-to-DICOM, row-by-row):'' @ [CHR 0x0A] @
      ''1 0 0 0 0 1 0 0 0 0 1 0'' @ [CHR 0x0A] @ ''13 14 15'')) \<and>
   ''3dvolreg matrices (DICOM-to-DICOM, row-by-row):'' \<in>
     set (array_lines_of (''3dvolreg matrices (DICOM-to-DICOM, row-by-row):'' @ [CHR 0x0A] @
      ''1 0 0 0 0 1 0 0 0 0 1 0'' @ [CHR 0x0A] @ ''13 14 15''))"
proof -
  let ?banner = "''3dvolreg matrices (DICOM-to-DICOM, row-by-row):''"
  let ?text = "?banner @ [CHR 0x0A] @ ''1 0 0 0 0 1 0 0 0 0 1 0'' @ [CHR 0x0A] @ ''13 14 15''"
  have l: "lines_of ?text = ''1 0 0 0 0 1 0 0 0 0 1 0'' # [''13 14 15'']"
    by (simp add: lines_eval)
  have b: "sublist ''3dvolreg matrices'' ?banner"
    by (simp add: sublist_code)
  have s: "?banner \<in> set (splitlines ?text)" "strip ?banner = ?banner"
    "\<not> startswith ?banner ''#''"
    by (simp_all add: lines_eval)
  from C10_first_data_line_only
    [of ?text "''1 0 0 0 0 1 0 0 0 0 1 0''" "[''13 14 15'']" py_float ?banner] l b s
  have "from_string py_float ?text = from_string py_float ''1 0 0 0 0 1 0 0 0 0 1 0''"
    and "?banner \<notin> set (lines_of ?text)"
    and "?banner \<in> set (array_lines_of ?text)"
    by simp_all
  with l b show ?thesis
    by simp
qed

section \<open>Obliquity of an affine\<close>

lemma eye_4: "eye 4 = [[1, 0, 0, 0], [0, 1, 0, 0], [0, 0, 1, 0], [0, 0, 0, 1]]"
  by (simp add: eye_def diag_def upt4)

lemma abs_le_length3:
  "\<bar>a\<bar> \<le> sqrt (a\<^sup>2 + b\<^sup>2 + c\<^sup>2)" "\<bar>b\<bar> \<le> sqrt (a\<^sup>2 + b\<^sup>2 + c\<^sup>2)"
  "\<bar>c\<bar> \<le> sqrt (a\<^sup>2 + b\<^sup>2 + c\<^sup>2)"
  by (rule real_le_rsqrt, simp)+

lemma less_Min3: "t < x \<Longrightarrow> t < y \<Longrightarrow> t < z \<Longrightarrow> (t :: real) < Min (set [x, y, z])"
  by simp

lemma length3_zero: "sqrt (a\<^sup>2 + b\<^sup>2 + c\<^sup>2) = 0 \<longleftrightarrow> a = 0 \<and> b = 0 \<and> c = 0"
  by (simp add: sum_power2_eq_zero_iff add_nonneg_eq_0_iff)

lemma ratio_le_1: "v \<noteq> 0 \<Longrightarrow> \<bar>a\<bar> \<le> v \<Longrightarrow> \<bar>a\<bar> / v \<le> (1::real)"
proof -
  assume "v \<noteq> 0" "\<bar>a\<bar> \<le> v"
  then have "0 < v" by linarith
  with \<open>\<bar>a\<bar> \<le> v\<close> show ?thesis by (simp add: divide_le_eq_1_pos)
qed

lemma voxel_sizes_4_4:
  "voxel_sizes [[a0, a1, a2, a3], [b0, b1, b2, b3], [c0, c1, c2, c3], [d0, d1, d2, d3]]
   = [sqrt (a0\<^sup>2 + b0\<^sup>2 + c0\<^sup>2), sqrt (a1\<^sup>2 + b1\<^sup>2 + c1\<^sup>2), sqrt (a2\<^sup>2 + b2\<^sup>2 + c2\<^sup>2)]"
  by (simp add: voxel_sizes_def top_left_def ncols_def column_def upt_rec numeral_eq_Suc add.assoc)

lemmas f8_ops = true_divide_def np_abs_def np_max_def maximum_def f8_le_def np_arccos_def
  np_min_def minimum_def to_degrees_def f8_greater_def

text \<open>The best cosine of a row, when no column is zero.\<close>

lemma best_cosine_finite:
  assumes "u \<noteq> 0" "v \<noteq> 0" "w \<noteq> 0" "\<bar>a\<bar> \<le> u" "\<bar>b\<bar> \<le> v" "\<bar>c\<bar> \<le> w"
  shows "np_arccos (np_max (map np_abs (map2 true_divide [a, b, c] [u, v, w])))
    = Finite (arccos (Max (set [\<bar>a\<bar> / u, \<bar>b\<bar> / v, \<bar>c\<bar> / w])))"
proof -
  from assms have pos: "0 < u" "0 < v" "0 < w" by linarith+
  have le: "\<bar>a\<bar> / u \<le> 1" "\<bar>b\<bar> / v \<le> 1" "\<bar>c\<bar> / w \<le> 1"
    using assms by (simp_all add: ratio_le_1)
  have ge: "0 \<le> \<bar>a\<bar> / u" "0 \<le> \<bar>b\<bar> / v" "0 \<le> \<bar>c\<bar> / w"
    using pos by simp_all
  have "np_max (map np_abs (map2 true_divide [a, b, c] [u, v, w]))
      = Finite (max (\<bar>a\<bar> / u) (max (\<bar>b\<bar> / v) (\<bar>c\<bar> / w)))"
    using pos by (simp add: f8_ops abs_divide max_def)
  moreover have "max (\<bar>a\<bar> / u) (max (\<bar>b\<bar> / v) (\<bar>c\<bar> / w)) \<le> 1"
    using le by simp
  moreover have "- 1 \<le> max (\<bar>a\<bar> / u) (max (\<bar>b\<bar> / v) (\<bar>c\<bar> / w))"
    using ge by (simp add: max_def)
  ultimately show ?thesis
    by (simp add: np_arccos_def)
qed

lemma best_cosine_nan:
  assumes "(a = 0 \<and> u = 0) \<or> (b = 0 \<and> v = 0) \<or> (c = 0 \<and> w = 0)"
  shows "np_arccos (np_max (map np_abs (map2 true_divide [a, b, c] [u, v, w]))) = NaN"
  using assms by (auto simp: f8_ops split: f8.splits)

lemma np_min_finite:
  "np_min [Finite x, Finite y, Finite z] = Finite (Min (set [x, y, z]))"
  by (simp add: f8_ops min_def)

lemma np_min_nan: "x = NaN \<or> y = NaN \<or> z = NaN \<Longrightarrow> np_min [x, y, z] = NaN"
  by (auto simp: f8_ops)

lemma deg_mono: "a * 180 / pi \<le> b * 180 / pi \<longleftrightarrow> a \<le> b"
  by (simp add: divide_le_cancel)

lemma to_degrees_min:
  "to_degrees (np_min [Finite x, Finite y, Finite z])
     = Finite (Min (set [x * 180 / pi, y * 180 / pi, z * 180 / pi]))"
proof -
  have "min x (min y z) * 180 / pi = min (x * 180 / pi) (min (y * 180 / pi) (z * 180 / pi))"
    by (simp add: min_def deg_mono)
  moreover have "np_min [Finite x, Finite y, Finite z] = Finite (min x (min y z))"
    by (simp add: np_min_def minimum_def f8_le_def min_def)
  ultimately show ?thesis by (simp add: to_degrees_def)
qed

text \<open>The smallest obliquity angle of a \<open>4 \<times> 4\<close> affine, in degrees, as numpy computes it.\<close>

lemma min_obliquity_4_4:
  fixes a0 a1 a2 b0 b1 b2 c0 c1 c2 :: real
  defines "u \<equiv> sqrt (a0\<^sup>2 + b0\<^sup>2 + c0\<^sup>2)"
    and "v \<equiv> sqrt (a1\<^sup>2 + b1\<^sup>2 + c1\<^sup>2)"
    and "w \<equiv> sqrt (a2\<^sup>2 + b2\<^sup>2 + c2\<^sup>2)"
  shows "to_degrees (np_min (obliquity
            [[a0, a1, a2, a3], [b0, b1, b2, b3], [c0, c1, c2, c3], [d0, d1, d2, d3]])) =
     (if u \<noteq> 0 \<and> v \<noteq> 0 \<and> w \<noteq> 0
      then Finite (Min (set
             [arccos (Max (set [\<bar>a0\<bar> / u, \<bar>a1\<bar> / v, \<bar>a2\<bar> / w])) * 180 / pi,
              arccos (Max (set [\<bar>b0\<bar> / u, \<bar>b1\<bar> / v, \<bar>b2\<bar> / w])) * 180 / pi,
              arccos (Max (set [\<bar>c0\<bar> / u, \<bar>c1\<bar> / v, \<bar>c2\<bar> / w])) * 180 / pi]))
      else NaN)"
proof -
  let ?A = "[[a0, a1, a2, a3], [b0, b1, b2, b3], [c0, c1, c2, c3], [d0, d1, d2, d3]]"
  have ob: "obliquity ?A =
     [np_arccos (np_max (map np_abs (map2 true_divide [a0, a1, a2] [u, v, w]))),
      np_arccos (np_max (map np_abs (map2 true_divide [b0, b1, b2] [u, v, w]))),
      np_arccos (np_max (map np_abs (map2 true_divide [c0, c1, c2] [u, v, w])))]"
    by (simp add: obliquity_def voxel_sizes_4_4 top_left_def u_def v_def w_def)
  show ?thesis
  proof (cases "u \<noteq> 0 \<and> v \<noteq> 0 \<and> w \<noteq> 0")
    case True
    then have nz: "u \<noteq> 0" "v \<noteq> 0" "w \<noteq> 0"
      by simp_all
    have bu: "\<bar>a0\<bar> \<le> u" "\<bar>b0\<bar> \<le> u" "\<bar>c0\<bar> \<le> u"
      unfolding u_def by (rule abs_le_length3)+
    have bv: "\<bar>a1\<bar> \<le> v" "\<bar>b1\<bar> \<le> v" "\<bar>c1\<bar> \<le> v"
      unfolding v_def by (rule abs_le_length3)+
    have bw: "\<bar>a2\<bar> \<le> w" "\<bar>b2\<bar> \<le> w" "\<bar>c2\<bar> \<le> w"
      unfolding w_def by (rule abs_le_length3)+
    note r0 = best_cosine_finite [OF nz bu(1) bv(1) bw(1)]
    note r1 = best_cosine_finite [OF nz bu(2) bv(2) bw(2)]
    note r2 = best_cosine_finite [OF nz bu(3) bv(3) bw(3)]
    show ?thesis
      unfolding ob r0 r1 r2 to_degrees_min using True by simp
  next
    case False
    have "u = 0 \<longleftrightarrow> a0 = 0 \<and> b0 = 0 \<and> c0 = 0" "v = 0 \<longleftrightarrow> a1 = 0 \<and> b1 = 0 \<and> c1 = 0"
      "w = 0 \<longleftrightarrow> a2 = 0 \<and> b2 = 0 \<and> c2 = 0"
      unfolding u_def v_def w_def by (rule length3_zero)+
    with False have z: "(a0 = 0 \<and> u = 0) \<or> (a1 = 0 \<and> v = 0) \<or> (a2 = 0 \<and> w = 0)"
      by blast
    have "np_min (obliquity ?A) = NaN"
      unfolding ob by (rule np_min_nan, rule disjI1, rule best_cosine_nan [OF z])
    then show ?thesis
      using False by (simp add: to_degrees_def)
  qed
qed

lemma obliquity_angles_deg_4_4:
  "obliquity_angles_deg [[a0, a1, a2, a3], [b0, b1, b2, b3], [c0, c1, c2, c3], [d0, d1, d2, d3]] =
     [arccos (Max (set [\<bar>a0\<bar> / sqrt (a0\<^sup>2 + b0\<^sup>2 + c0\<^sup>2), \<bar>a1\<bar> / sqrt (a1\<^sup>2 + b1\<^sup>2 + c1\<^sup>2),
                        \<bar>a2\<bar> / sqrt (a2\<^sup>2 + b2\<^sup>2 + c2\<^sup>2)])) * 180 / pi,
      arccos (Max (set [\<bar>b0\<bar> / sqrt (a0\<^sup>2 + b0\<^sup>2 + c0\<^sup>2), \<bar>b1\<bar> / sqrt (a1\<^sup>2 + b1\<^sup>2 + c1\<^sup>2),
                        \<bar>b2\<bar> / sqrt (a2\<^sup>2 + b2\<^sup>2 + c2\<^sup>2)])) * 180 / pi,
      arccos (Max (set [\<bar>c0\<bar> / sqrt (a0\<^sup>2 + b0\<^sup>2 + c0\<^sup>2), \<bar>c1\<bar> / sqrt (a1\<^sup>2 + b1\<^sup>2 + c1\<^sup>2),
                        \<bar>c2\<bar> / sqrt (a2\<^sup>2 + b2\<^sup>2 + c2\<^sup>2)])) * 180 / pi]"
  by (simp add: obliquity_angles_deg_def column_length_def)

lemma column_length_4_4:
  "column_length [[a0, a1, a2, a3], [b0, b1, b2, b3], [c0, c1, c2, c3], [d0, d1, d2, d3]] 0
     = sqrt (a0\<^sup>2 + b0\<^sup>2 + c0\<^sup>2)"
  "column_length [[a0, a1, a2, a3], [b0, b1, b2, b3], [c0, c1, c2, c3], [d0, d1, d2, d3]] 1
     = sqrt (a1\<^sup>2 + b1\<^sup>2 + c1\<^sup>2)"
  "column_length [[a0, a1, a2, a3], [b0, b1, b2, b3], [c0, c1, c2, c3], [d0, d1, d2, d3]] 2
     = sqrt (a2\<^sup>2 + b2\<^sup>2 + c2\<^sup>2)"
  by (simp_all add: column_length_def)

text \<open>An angle whose cosine is at most \<open>7 / 11\<close> is more than 45 degrees.\<close>

lemma arccos_ge_quarter_pi:
  assumes "- 1 \<le> x" "x \<le> 7 / 11"
  shows "pi / 4 \<le> arccos x"
proof -
  have "sqrt 2 \<le> 11 / 7"
    by (rule real_le_lsqrt) (simp_all add: power2_eq_square)
  then have "(7 :: real) / 11 \<le> 1 / sqrt 2"
    by (simp add: field_simps)
  with assms have x: "x \<le> 1 / sqrt 2"
    by linarith
  have "1 / sqrt 2 \<le> (1 :: real)"
    by simp
  with assms(1) x have "arccos (1 / sqrt 2) \<le> arccos x"
    by (intro arccos_le_arccos)
  then show ?thesis
    by (simp add: arccos_one_over_sqrt_2)
qed

lemma degrees_above_threshold:
  assumes "pi / 4 \<le> a"
  shows "1 / 100 < a * 180 / pi"
proof -
  have "0 < pi"
    by (rule pi_gt_zero)
  with assms have "pi < 18000 * a"
    by linarith
  with \<open>0 < pi\<close> show ?thesis
    by (simp add: field_simps)
qed

lemma sqrt_121: "sqrt 121 = 11"
  by (rule real_sqrt_unique) simp_all

text \<open>
  An affine that is invertible and oblique: each row of its rotation block makes an
  angle of more than 45 degrees with every axis.
\<close>

lemma oblique_example_angle:
  "to_degrees (np_min (obliquity
      [[7, 7, 6, - 90], [6, 6, 6, - 80], [6, - 6, 7, - 70], [0, 0, 0, 1]])) =
   Finite (Min (set [arccos (7 / 11) * 180 / pi, arccos (6 / 11) * 180 / pi,
                     arccos (7 / 11) * 180 / pi]))"
  unfolding min_obliquity_4_4 by (simp add: sqrt_121)

lemma is_oblique_example:
  "is_oblique [[7, 7, 6, - 90], [6, 6, 6, - 80], [6, - 6, 7, - 70], [0, 0, 0, 1]] None"
proof -
  have "1 / 100 < arccos (7 / 11) * 180 / pi" "1 / 100 < arccos (6 / 11) * 180 / pi"
    by (rule degrees_above_threshold, rule arccos_ge_quarter_pi; simp)+
  then have "1 / 100 < Min (set [arccos (7 / 11) * 180 / pi, arccos (6 / 11) * 180 / pi,
                     arccos (7 / 11) * 180 / pi])"
    by (intro less_Min3)
  then show ?thesis
    unfolding is_oblique_def oblique_example_angle f8_greater_def OBLIQUITY_THRESHOLD_DEG_def
    by (simp only: f8.case option.case)
qed

lemma ball_012: "(\<forall>j\<in>set [0, 1, 2 :: nat]. P j) \<longleftrightarrow> P 0 \<and> P 1 \<and> P 2"
  by simp

lemma f8_greater_if:
  "f8_greater (if c then Finite m else NaN) t \<longleftrightarrow> c \<and> t < m"
  by (simp add: f8_greater_def)

text \<open>
  Claim C2: for every \<open>4 \<times> 4\<close> affine \<open>A\<close>, \<^verbatim>\<open>_is_oblique(A)\<close> is true if and only
  if the smallest obliquity angle of the rotation block of \<open>A\<close>, in degrees, is greater
  than 0.01 (where a column of the block is zero, numpy's angles are \<^verbatim>\<open>nan\<close> and the
  answer is false); \<^verbatim>\<open>_is_oblique\<close> of the identity is false; the result is a
  function of the affine. Arithmetic on the entries is exact here.
\<close>

theorem C2_is_oblique:
  assumes "has_shape 4 4 A"
  shows "(is_oblique A None \<longleftrightarrow>
           (\<forall>j\<in>set [0, 1, 2]. column_length A j \<noteq> 0) \<and>
           1 / 100 < Min (set (obliquity_angles_deg A))) \<and>
         \<not> is_oblique (eye 4) None"
proof
  from assms obtain a0 a1 a2 a3 b0 b1 b2 b3 c0 c1 c2 c3 d0 d1 d2 d3 where
    A: "A = [[a0, a1, a2, a3], [b0, b1, b2, b3], [c0, c1, c2, c3], [d0, d1, d2, d3]]"
    by (rule has_shape_4_4E)
  show "is_oblique A None \<longleftrightarrow>
           (\<forall>j\<in>set [0, 1, 2]. column_length A j \<noteq> 0) \<and>
           1 / 100 < Min (set (obliquity_angles_deg A))"
    unfolding A is_oblique_def min_obliquity_4_4 obliquity_angles_deg_4_4 ball_012
      column_length_4_4 f8_greater_if option.case OBLIQUITY_THRESHOLD_DEG_def
    by (rule refl)
next
  have "to_degrees (np_min (obliquity (eye 4))) = Finite 0"
    unfolding eye_4 min_obliquity_4_4 by simp
  then show "\<not> is_oblique (eye 4) None"
    by (simp add: is_oblique_def f8_greater_def OBLIQUITY_THRESHOLD_DEG_def)
qed

theorem C2_is_oblique_witness:
  "has_shape 4 4 [[7, 7, 6, - 90], [6, 6, 6, - 80], [6, - 6, 7, - 70], [0, 0, 0, 1 :: real]] \<and>
   (\<forall>j\<in>set [0, 1, 2].
      column_length [[7, 7, 6, - 90], [6, 6, 6, - 80], [6, - 6, 7, - 70], [0, 0, 0, 1 :: real]] j = 11) \<and>
   is_oblique [[7, 7, 6, - 90], [6, 6, 6, - 80], [6, - 6, 7, - 70], [0, 0, 0, 1 :: real]] None \<and>
   has_shape 4 4 [[2, 0, 0, 5], [0, 1, 0, 6], [0, 0, 2, 7], [0, 0, 0, 1 :: real]] \<and>
   \<not> is_oblique [[2, 0, 0, 5], [0, 1, 0, 6], [0, 0, 2, 7], [0, 0, 0, 1 :: real]] None"
proof -
  let ?A = "[[7, 7, 6, - 90], [6, 6, 6, - 80], [6, - 6, 7, - 70], [0, 0, 0, 1 :: real]]"
  let ?B = "[[2, 0, 0, 5], [0, 1, 0, 6], [0, 0, 2, 7], [0, 0, 0, 1 :: real]]"
  have shape: "has_shape 4 4 ?A" "has_shape 4 4 ?B"
    by (simp_all add: has_shape_def)
  have len: "column_length ?A 0 = 11" "column_length ?A 1 = 11" "column_length ?A 2 = 11"
    by (simp_all add: column_length_def sqrt_121)
  have angles: "obliquity_angles_deg ?A =
      [arccos (7 / 11) * 180 / pi, arccos (6 / 11) * 180 / pi, arccos (7 / 11) * 180 / pi]"
    unfolding obliquity_angles_deg_4_4 by (simp add: sqrt_121)
  have "1 / 100 < arccos (7 / 11) * 180 / pi" "1 / 100 < arccos (6 / 11) * 180 / pi"
    by (rule degrees_above_threshold, rule arccos_ge_quarter_pi; simp)+
  then have big: "1 / 100 < Min (set [arccos (7 / 11) * 180 / pi, arccos (6 / 11) * 180 / pi,
                     arccos (7 / 11) * 180 / pi])"
    by (intro less_Min3)
  have "\<forall>j\<in>set [0, 1, 2]. column_length ?A j \<noteq> 0"
    using len by simp
  with C2_is_oblique [OF shape(1)] big have "is_oblique ?A None"
    unfolding angles by blast
  moreover have "obliquity_angles_deg ?B = [0, 0, 0]"
    unfolding obliquity_angles_deg_4_4 by simp
  then have "\<not> is_oblique ?B None"
    using C2_is_oblique [OF shape(2)] by simp
  ultimately show ?thesis
    using shape len by simp
qed

end
